theory Spec2Isabelle
  imports Complex_Main "HOL-Library.Product_Lexorder"
begin

section \<open>Proxy pool (rotation-engine/pool.py)\<close>

text \<open>
  The pool lives in a keyed store.  A proxy record is the JSON object stored under
  \<^verbatim>\<open>gengar:proxy:<ip>:<port>\<close>; the three membership sets hold the address strings
  \<^verbatim>\<open><ip>:<port>\<close>.  The port is an integer, so its decimal form holds no colon and
  \<^verbatim>\<open>rsplit(":", 1)\<close> recovers the pair: an address is modelled as the pair itself.
  Python integers are \<open>int\<close>; Python floats are idealised as \<open>real\<close>; wall-clock reads
  (\<^verbatim>\<open>time.time()\<close>) are a parameter \<open>now\<close>.
\<close>

datatype py_error = TypeError | KeyError | IndexError

type_synonym addr = "string \<times> int"

record proxy =
  ip :: string
  port :: int
  protocol :: string
  country :: string
  latency_ms :: real
  health_score :: real
  last_checked :: real
  source :: string
  fail_count :: int
  success_count :: int
  total_checks :: int
  consecutive_fails :: int
  created_at :: real

text \<open>
  A dictionary of keyword arguments (\<^verbatim>\<open>**kwargs\<close>, or an element of the list given to
  \<^verbatim>\<open>bulk_add\<close>): every recognised key is optional, \<open>None\<close> meaning that the key is absent.
\<close>

record kwargs =
  kw_ip :: "string option"
  kw_port :: "int option"
  kw_protocol :: "string option"
  kw_country :: "string option"
  kw_latency_ms :: "real option"
  kw_health_score :: "real option"
  kw_last_checked :: "real option"
  kw_source :: "string option"
  kw_fail_count :: "int option"
  kw_success_count :: "int option"
  kw_total_checks :: "int option"
  kw_consecutive_fails :: "int option"
  kw_created_at :: "real option"

definition no_kwargs :: kwargs where
  "no_kwargs = \<lparr>kw_ip = None, kw_port = None, kw_protocol = None, kw_country = None,
     kw_latency_ms = None, kw_health_score = None, kw_last_checked = None, kw_source = None,
     kw_fail_count = None, kw_success_count = None, kw_total_checks = None,
     kw_consecutive_fails = None, kw_created_at = None\<rparr>"

record pool =
  proxies :: "addr \<rightharpoonup> proxy"
  index :: "addr set"
  dead :: "addr set"
  healthy :: "addr set"
  sessions :: "string \<rightharpoonup> (proxy \<times> real)"
  rr_index :: "int option"
  time_based_current_proxy :: "proxy option"
  time_based_last_rotation :: "real option"
  on_block_current_proxy :: "proxy option"

definition empty_pool :: pool where
  "empty_pool = \<lparr>proxies = Map.empty, index = {}, dead = {}, healthy = {},
     sessions = Map.empty, rr_index = None, time_based_current_proxy = None,
     time_based_last_rotation = None, on_block_current_proxy = None\<rparr>"

definition proxy_key :: "string \<Rightarrow> int \<Rightarrow> addr" where
  "proxy_key i p = (i, p)"

text \<open>\<^verbatim>\<open>dict.update\<close> with the keys that are present.\<close>

definition dict_update :: "proxy \<Rightarrow> kwargs \<Rightarrow> proxy" where
  "dict_update b k =
     \<lparr>ip = (case kw_ip k of None \<Rightarrow> ip b | Some v \<Rightarrow> v),
      port = (case kw_port k of None \<Rightarrow> port b | Some v \<Rightarrow> v),
      protocol = (case kw_protocol k of None \<Rightarrow> protocol b | Some v \<Rightarrow> v),
      country = (case kw_country k of None \<Rightarrow> country b | Some v \<Rightarrow> v),
      latency_ms = (case kw_latency_ms k of None \<Rightarrow> latency_ms b | Some v \<Rightarrow> v),
      health_score = (case kw_health_score k of None \<Rightarrow> health_score b | Some v \<Rightarrow> v),
      last_checked = (case kw_last_checked k of None \<Rightarrow> last_checked b | Some v \<Rightarrow> v),
      source = (case kw_source k of None \<Rightarrow> source b | Some v \<Rightarrow> v),
      fail_count = (case kw_fail_count k of None \<Rightarrow> fail_count b | Some v \<Rightarrow> v),
      success_count = (case kw_success_count k of None \<Rightarrow> success_count b | Some v \<Rightarrow> v),
      total_checks = (case kw_total_checks k of None \<Rightarrow> total_checks b | Some v \<Rightarrow> v),
      consecutive_fails =
        (case kw_consecutive_fails k of None \<Rightarrow> consecutive_fails b | Some v \<Rightarrow> v),
      created_at = (case kw_created_at k of None \<Rightarrow> created_at b | Some v \<Rightarrow> v)\<rparr>"

definition base_proxy :: "real \<Rightarrow> string \<Rightarrow> int \<Rightarrow> proxy" where
  "base_proxy now i p =
     \<lparr>ip = i, port = p, protocol = ''http'', country = '''', latency_ms = 0,
      health_score = 0, last_checked = now, source = '''', fail_count = 0,
      success_count = 0, total_checks = 0, consecutive_fails = 0, created_at = now\<rparr>"

text \<open>
  \<^verbatim>\<open>_default_proxy(ip, port, **overrides)\<close>: \<open>ip\<close> and \<open>port\<close> are named parameters, so a
  keyword dictionary that holds either key makes the call raise \<^verbatim>\<open>TypeError\<close> (multiple
  values for the argument) before the body runs.
\<close>

definition default_proxy :: "real \<Rightarrow> string \<Rightarrow> int \<Rightarrow> kwargs \<Rightarrow> py_error + proxy" where
  "default_proxy now i p overrides =
     (if kw_ip overrides \<noteq> None \<or> kw_port overrides \<noteq> None then Inl TypeError
      else Inr (dict_update (base_proxy now i p) overrides))"

definition add_proxy ::
  "real \<Rightarrow> string \<Rightarrow> int \<Rightarrow> kwargs \<Rightarrow> pool \<Rightarrow> (py_error + proxy) \<times> pool" where
  "add_proxy now i p kw s =
     (if kw_ip kw \<noteq> None \<or> kw_port kw \<noteq> None then (Inl TypeError, s)
      else
        (case (case proxies s (proxy_key i p) of
                 Some existing \<Rightarrow> Inr (dict_update existing kw)
               | None \<Rightarrow> default_proxy now i p kw) of
           Inl e \<Rightarrow> (Inl e, s)
         | Inr px \<Rightarrow>
             (let s1 = s\<lparr>proxies := (proxies s)(proxy_key i p \<mapsto> px)\<rparr>;
                  s2 = s1\<lparr>index := insert (i, p) (index s1)\<rparr>;
                  s3 = s2\<lparr>dead := dead s2 - {(i, p)}\<rparr>;
                  s4 = (if health_score px \<ge> 0
                        then s3\<lparr>healthy := insert (i, p) (healthy s3)\<rparr> else s3)
              in (Inr px, s4))))"

text \<open>
  \<^verbatim>\<open>bulk_add\<close> queues its writes on a pipeline and executes the pipeline after the loop.
  The loop body reads \<^verbatim>\<open>p["ip"]\<close> and \<^verbatim>\<open>p["port"]\<close> and then calls
  \<^verbatim>\<open>_default_proxy(ip, port, **p)\<close> with the same dictionary.
\<close>

datatype pipe_op =
    PSet addr proxy
  | PSaddIndex addr
  | PSremDead addr
  | PSaddHealthy addr

fun exec_op :: "pipe_op \<Rightarrow> pool \<Rightarrow> pool" where
  "exec_op (PSet a px) s = s\<lparr>proxies := (proxies s)(a \<mapsto> px)\<rparr>"
| "exec_op (PSaddIndex a) s = s\<lparr>index := insert a (index s)\<rparr>"
| "exec_op (PSremDead a) s = s\<lparr>dead := dead s - {a}\<rparr>"
| "exec_op (PSaddHealthy a) s = s\<lparr>healthy := insert a (healthy s)\<rparr>"

fun pipe_execute :: "pipe_op list \<Rightarrow> pool \<Rightarrow> pool" where
  "pipe_execute [] s = s"
| "pipe_execute (c # cs) s = pipe_execute cs (exec_op c s)"

fun bulk_add_loop ::
  "real \<Rightarrow> kwargs list \<Rightarrow> pipe_op list \<Rightarrow> int \<Rightarrow> py_error + (pipe_op list \<times> int)" where
  "bulk_add_loop now [] pipe count = Inr (pipe, count)"
| "bulk_add_loop now (p # ps) pipe count =
     (case kw_ip p of
        None \<Rightarrow> Inl KeyError
      | Some i \<Rightarrow>
          (case kw_port p of
             None \<Rightarrow> Inl KeyError
           | Some pt \<Rightarrow>
               (case default_proxy now i pt p of
                  Inl e \<Rightarrow> Inl e
                | Inr px \<Rightarrow>
                    bulk_add_loop now ps
                      (pipe @ [PSet (proxy_key i pt) px, PSaddIndex (i, pt),
                               PSremDead (i, pt), PSaddHealthy (i, pt)])
                      (count + 1))))"

definition bulk_add :: "real \<Rightarrow> kwargs list \<Rightarrow> pool \<Rightarrow> (py_error + int) \<times> pool" where
  "bulk_add now ps s =
     (case bulk_add_loop now ps [] 0 of
        Inl e \<Rightarrow> (Inl e, s)
      | Inr (pipe, count) \<Rightarrow> (Inr count, pipe_execute pipe s))"

definition get_proxy :: "string \<Rightarrow> int \<Rightarrow> pool \<Rightarrow> proxy option" where
  "get_proxy i p s = proxies s (proxy_key i p)"

text \<open>
  \<^verbatim>\<open>smembers\<close> returns the set in an order the store chooses: the enumeration is the
  parameter \<open>members\<close>.  Python's \<^verbatim>\<open>list.sort\<close> is stable, as \<open>sort_key\<close> is.
\<close>

definition get_healthy_proxies :: "addr list \<Rightarrow> real \<Rightarrow> pool \<Rightarrow> proxy list" where
  "get_healthy_proxies members min_score s =
     (if members = [] then []
      else
        (let results = map (\<lambda>m. proxies s (proxy_key (fst m) (snd m))) members;
             healthy_l = List.map_filter
                (\<lambda>raw. case raw of None \<Rightarrow> None
                   | Some px \<Rightarrow> if health_score px \<ge> min_score then Some px else None)
                results
         in sort_key (\<lambda>x. (- health_score x, latency_ms x)) healthy_l))"

definition mark_dead :: "string \<Rightarrow> int \<Rightarrow> pool \<Rightarrow> pool" where
  "mark_dead i p s =
     (let s1 = s\<lparr>dead := insert (i, p) (dead s)\<rparr>
      in s1\<lparr>healthy := healthy s1 - {(i, p)}\<rparr>)"

definition record_success :: "real \<Rightarrow> string \<Rightarrow> int \<Rightarrow> real \<Rightarrow> pool \<Rightarrow> proxy option \<times> pool" where
  "record_success now i p latency s =
     (case proxies s (proxy_key i p) of
        None \<Rightarrow> (None, s)
      | Some px0 \<Rightarrow>
          (let px1 = px0\<lparr>success_count := success_count px0 + 1\<rparr>;
               px2 = px1\<lparr>total_checks := total_checks px1 + 1\<rparr>;
               px3 = px2\<lparr>consecutive_fails := 0\<rparr>;
               px4 = px3\<lparr>latency_ms := latency\<rparr>;
               px5 = px4\<lparr>last_checked := now\<rparr>;
               total = total_checks px5;
               px6 = px5\<lparr>health_score :=
                        (if total \<noteq> 0 then (real_of_int (success_count px5) / real_of_int total) * 100
                         else 0)\<rparr>;
               s1 = s\<lparr>proxies := (proxies s)(proxy_key i p \<mapsto> px6)\<rparr>;
               s2 = s1\<lparr>healthy := insert (i, p) (healthy s1)\<rparr>;
               s3 = s2\<lparr>dead := dead s2 - {(i, p)}\<rparr>
           in (Some px6, s3)))"

definition record_failure :: "real \<Rightarrow> string \<Rightarrow> int \<Rightarrow> pool \<Rightarrow> proxy option \<times> pool" where
  "record_failure now i p s =
     (case proxies s (proxy_key i p) of
        None \<Rightarrow> (None, s)
      | Some px0 \<Rightarrow>
          (let px1 = px0\<lparr>fail_count := fail_count px0 + 1\<rparr>;
               px2 = px1\<lparr>total_checks := total_checks px1 + 1\<rparr>;
               px3 = px2\<lparr>consecutive_fails := consecutive_fails px2 + 1\<rparr>;
               px4 = px3\<lparr>last_checked := now\<rparr>;
               total = total_checks px4;
               px5 = px4\<lparr>health_score :=
                        (if total \<noteq> 0 then (real_of_int (success_count px4) / real_of_int total) * 100
                         else 0)\<rparr>;
               s1 = s\<lparr>proxies := (proxies s)(proxy_key i p \<mapsto> px5)\<rparr>;
               s2 = (if consecutive_fails px5 \<ge> 3 then mark_dead i p s1 else s1)
           in (Some px5, s2)))"

definition remove_proxy :: "string \<Rightarrow> int \<Rightarrow> pool \<Rightarrow> pool" where
  "remove_proxy i p s =
     (let s1 = s\<lparr>proxies := (proxies s)(proxy_key i p := None)\<rparr>;
          s2 = s1\<lparr>index := index s1 - {(i, p)}\<rparr>;
          s3 = s2\<lparr>dead := dead s2 - {(i, p)}\<rparr>
      in s3\<lparr>healthy := healthy s3 - {(i, p)}\<rparr>)"

text \<open>
  \<^verbatim>\<open>flush_dead\<close> queues, for every dead address, the deletion of its record and its
  removal from the index, then the deletion of the dead set; the queued operations touch
  distinct keys per address, so their effect is that of the set operations below.
\<close>

definition flush_dead :: "pool \<Rightarrow> nat \<times> pool" where
  "flush_dead s =
     (if dead s = {} then (0, s)
      else
        (let d = dead s;
             s1 = s\<lparr>proxies := (\<lambda>a. if a \<in> d then None else proxies s a)\<rparr>;
             s2 = s1\<lparr>index := index s1 - d\<rparr>;
             s3 = s2\<lparr>dead := {}\<rparr>
         in (card d, s3)))"

section \<open>Health checker (proxy-scraper/health_checker.py)\<close>

text \<open>
  The checker works on the same store through its own adapter.  A probe through the proxy
  either passes (status 200 and a JSON body with an \<^verbatim>\<open>origin\<close> field; it carries the
  rounded round-trip time) or fails (timeout, transport error, other status, no
  \<^verbatim>\<open>origin\<close>).
\<close>

datatype probe = ProbePass real | ProbeFail

definition adapter_get_proxy :: "string \<Rightarrow> int \<Rightarrow> pool \<Rightarrow> proxy option" where
  "adapter_get_proxy i p s = proxies s (i, p)"

definition save_proxy :: "proxy \<Rightarrow> pool \<Rightarrow> pool" where
  "save_proxy px s =
     (let a = (ip px, port px);
          s1 = s\<lparr>proxies := (proxies s)(a \<mapsto> px)\<rparr>
      in if consecutive_fails px = 0
         then (let s2 = s1\<lparr>healthy := insert a (healthy s1)\<rparr>
               in s2\<lparr>dead := dead s2 - {a}\<rparr>)
         else s1)"

definition adapter_mark_dead :: "string \<Rightarrow> int \<Rightarrow> pool \<Rightarrow> pool" where
  "adapter_mark_dead i p s =
     (let s1 = s\<lparr>dead := insert (i, p) (dead s)\<rparr>
      in s1\<lparr>healthy := healthy s1 - {(i, p)}\<rparr>)"

definition adapter_remove_proxy :: "string \<Rightarrow> int \<Rightarrow> pool \<Rightarrow> pool" where
  "adapter_remove_proxy i p s =
     (let s1 = s\<lparr>proxies := (proxies s)((i, p) := None)\<rparr>;
          s2 = s1\<lparr>index := index s1 - {(i, p)}\<rparr>;
          s3 = s2\<lparr>dead := dead s2 - {(i, p)}\<rparr>
      in s3\<lparr>healthy := healthy s3 - {(i, p)}\<rparr>)"

text \<open>The record written on the failure path, before the eviction decision.\<close>

definition failure_update :: "real \<Rightarrow> proxy \<Rightarrow> proxy" where
  "failure_update now existing =
     (let e1 = existing\<lparr>fail_count := fail_count existing + 1\<rparr>;
          e2 = e1\<lparr>total_checks := total_checks e1 + 1\<rparr>;
          e3 = e2\<lparr>consecutive_fails := consecutive_fails e2 + 1\<rparr>;
          e4 = e3\<lparr>last_checked := now\<rparr>;
          total = total_checks e4
      in e4\<lparr>health_score :=
              (if total \<noteq> 0 then (real_of_int (success_count e4) / real_of_int total) * 100
               else 0)\<rparr>)"

definition success_update :: "real \<Rightarrow> real \<Rightarrow> proxy \<Rightarrow> proxy" where
  "success_update now latency existing =
     (let e1 = existing\<lparr>success_count := success_count existing + 1\<rparr>;
          e2 = e1\<lparr>total_checks := total_checks e1 + 1\<rparr>;
          e3 = e2\<lparr>consecutive_fails := 0\<rparr>;
          e4 = e3\<lparr>latency_ms := latency\<rparr>;
          e5 = e4\<lparr>last_checked := now\<rparr>;
          total = total_checks e5
      in e5\<lparr>health_score :=
              (if total \<noteq> 0 then (real_of_int (success_count e5) / real_of_int total) * 100
               else 0)\<rparr>)"

definition check_single_proxy :: "real \<Rightarrow> proxy \<Rightarrow> probe \<Rightarrow> pool \<Rightarrow> bool \<times> pool" where
  "check_single_proxy now px outcome s =
     (let i = ip px; p = port px
      in case outcome of
           ProbePass latency \<Rightarrow>
             (case adapter_get_proxy i p s of
                Some existing \<Rightarrow> (True, save_proxy (success_update now latency existing) s)
              | None \<Rightarrow> (True, s))
         | ProbeFail \<Rightarrow>
             (case adapter_get_proxy i p s of
                None \<Rightarrow> (False, s)
              | Some existing \<Rightarrow>
                  (let e = failure_update now existing;
                       s1 = save_proxy e s
                   in if consecutive_fails e \<ge> 3
                      then (False, adapter_remove_proxy i p s1)
                      else (False, adapter_mark_dead i p s1))))"

section \<open>Rotation strategies (rotation-engine/strategies.py)\<close>

record select_context =
  session_id :: "string option"
  target_domain :: "string option"
  session_ttl :: "int option"
  rotation_interval :: "int option"

datatype strategy = PerRequest | PerSession | TimeBased | OnBlock | RoundRobin

text \<open>
  \<^verbatim>\<open>random.choice\<close> and \<^verbatim>\<open>random.choices\<close> (whose weights \<^verbatim>\<open>max(health_score, 1)\<close> are
  all positive) return some element of a non-empty list: the drawn position is the
  parameter \<open>rnd\<close>.
\<close>

definition random_choice :: "nat \<Rightarrow> 'a list \<Rightarrow> 'a" where
  "random_choice rnd xs = xs ! (rnd mod length xs)"

text \<open>
  Subscripting a Python list: an index below zero is taken from the end of the list, and
  an index outside the list raises \<^verbatim>\<open>IndexError\<close>.
\<close>

definition py_index :: "'a list \<Rightarrow> int \<Rightarrow> py_error + 'a" where
  "py_index xs i =
     (if i < 0
      then (if - i \<le> int (length xs) then Inr (xs ! nat (int (length xs) + i))
            else Inl IndexError)
      else (if i < int (length xs) then Inr (xs ! nat i) else Inl IndexError))"

text \<open>A session pin is stored with its expiry instant; the store drops it at that instant.\<close>

definition set_session_proxy :: "real \<Rightarrow> string \<Rightarrow> proxy \<Rightarrow> int \<Rightarrow> pool \<Rightarrow> pool" where
  "set_session_proxy now sid px ttl s =
     s\<lparr>sessions := (sessions s)(sid \<mapsto> (px, now + real_of_int ttl))\<rparr>"

definition get_session_proxy :: "real \<Rightarrow> string \<Rightarrow> pool \<Rightarrow> proxy option" where
  "get_session_proxy now sid s =
     (case sessions s sid of
        None \<Rightarrow> None
      | Some (px, expiry) \<Rightarrow> if now < expiry then Some px else None)"

definition get_rr_index :: "pool \<Rightarrow> int" where
  "get_rr_index s = (case rr_index s of None \<Rightarrow> 0 | Some i \<Rightarrow> i)"

definition set_rr_index :: "int \<Rightarrow> pool \<Rightarrow> pool" where
  "set_rr_index idx s = s\<lparr>rr_index := Some idx\<rparr>"

definition per_request_select ::
  "nat \<Rightarrow> addr list \<Rightarrow> select_context \<Rightarrow> pool \<Rightarrow> (py_error + proxy option) \<times> pool" where
  "per_request_select rnd members ctx s =
     (let proxies_l = get_healthy_proxies members 0 s
      in if proxies_l = [] then (Inr None, s)
         else (Inr (Some (random_choice rnd proxies_l)), s))"

definition session_cached :: "real \<Rightarrow> string option \<Rightarrow> pool \<Rightarrow> proxy option" where
  "session_cached now sid s =
     (case sid of
        None \<Rightarrow> None
      | Some sv \<Rightarrow>
          if sv = [] then None
          else (case get_session_proxy now sv s of
                  None \<Rightarrow> None
                | Some cached \<Rightarrow>
                    if (ip cached, port cached) \<in> dead s then None else Some cached))"

definition per_session_select ::
  "real \<Rightarrow> nat \<Rightarrow> addr list \<Rightarrow> select_context \<Rightarrow> pool \<Rightarrow> (py_error + proxy option) \<times> pool" where
  "per_session_select now rnd members ctx s =
     (let sid = session_id ctx;
          ttl = (case session_ttl ctx of None \<Rightarrow> 300 | Some t \<Rightarrow> t)
      in case session_cached now sid s of
           Some cached \<Rightarrow> (Inr (Some cached), s)
         | None \<Rightarrow>
             (let proxies_l = get_healthy_proxies members 0 s
              in if proxies_l = [] then (Inr None, s)
                 else
                   (let px = random_choice rnd proxies_l;
                        s1 = (case sid of
                                None \<Rightarrow> s
                              | Some sv \<Rightarrow>
                                  if sv = [] then s else set_session_proxy now sv px ttl s)
                    in (Inr (Some px), s1))))"

definition time_based_cached :: "real \<Rightarrow> int \<Rightarrow> pool \<Rightarrow> proxy option" where
  "time_based_cached now interval s =
     (let last_rotation = (case time_based_last_rotation s of None \<Rightarrow> 0 | Some t \<Rightarrow> t)
      in case time_based_current_proxy s of
           None \<Rightarrow> None
         | Some current_raw \<Rightarrow>
             if now - last_rotation < real_of_int interval
             then (if (ip current_raw, port current_raw) \<in> dead s then None
                   else Some current_raw)
             else None)"

definition time_based_select ::
  "real \<Rightarrow> nat \<Rightarrow> addr list \<Rightarrow> select_context \<Rightarrow> pool \<Rightarrow> (py_error + proxy option) \<times> pool" where
  "time_based_select now rnd members ctx s =
     (let interval = (case rotation_interval ctx of None \<Rightarrow> 30 | Some t \<Rightarrow> t)
      in case time_based_cached now interval s of
           Some current_raw \<Rightarrow> (Inr (Some current_raw), s)
         | None \<Rightarrow>
             (let proxies_l = get_healthy_proxies members 0 s
              in if proxies_l = [] then (Inr None, s)
                 else
                   (let px = random_choice rnd proxies_l;
                        s1 = s\<lparr>time_based_current_proxy := Some px\<rparr>;
                        s2 = s1\<lparr>time_based_last_rotation := Some now\<rparr>
                    in (Inr (Some px), s2))))"

definition on_block_cached :: "pool \<Rightarrow> proxy option" where
  "on_block_cached s =
     (case on_block_current_proxy s of
        None \<Rightarrow> None
      | Some current \<Rightarrow>
          if (ip current, port current) \<in> dead s then None else Some current)"

definition on_block_select ::
  "addr list \<Rightarrow> select_context \<Rightarrow> pool \<Rightarrow> (py_error + proxy option) \<times> pool" where
  "on_block_select members ctx s =
     (case on_block_cached s of
        Some current \<Rightarrow> (Inr (Some current), s)
      | None \<Rightarrow>
          (case get_healthy_proxies members 0 s of
             [] \<Rightarrow> (Inr None, s)
           | px # rest \<Rightarrow> (Inr (Some px), s\<lparr>on_block_current_proxy := Some px\<rparr>)))"

definition round_robin_select ::
  "addr list \<Rightarrow> select_context \<Rightarrow> pool \<Rightarrow> (py_error + proxy option) \<times> pool" where
  "round_robin_select members ctx s =
     (let proxies_l = get_healthy_proxies members 0 s
      in if proxies_l = [] then (Inr None, s)
         else
           (let idx0 = get_rr_index s;
                idx = (if idx0 \<ge> int (length proxies_l) then 0 else idx0)
            in case py_index proxies_l idx of
                 Inl e \<Rightarrow> (Inl e, s)
               | Inr px \<Rightarrow> (Inr (Some px), set_rr_index (idx + 1) s)))"

fun select ::
  "strategy \<Rightarrow> real \<Rightarrow> nat \<Rightarrow> addr list \<Rightarrow> select_context \<Rightarrow> pool \<Rightarrow> (py_error + proxy option) \<times> pool"
  where
  "select PerRequest now rnd members ctx s = per_request_select rnd members ctx s"
| "select PerSession now rnd members ctx s = per_session_select now rnd members ctx s"
| "select TimeBased now rnd members ctx s = time_based_select now rnd members ctx s"
| "select OnBlock now rnd members ctx s = on_block_select members ctx s"
| "select RoundRobin now rnd members ctx s = round_robin_select members ctx s"

section \<open>Gateway: block detection and forwarding (gateway/handler.py)\<close>

text \<open>
  Text is a list of characters with code points below 256; on such text a search for one
  of the literal patterns under \<^verbatim>\<open>re.IGNORECASE\<close> is a substring search that
  identifies the ASCII letters \<^verbatim>\<open>A-Z\<close> with \<^verbatim>\<open>a-z\<close>.
\<close>

definition BLOCK_STATUS_CODES :: "int set" where
  "BLOCK_STATUS_CODES = {403, 429, 503, 407}"

definition BLOCK_PATTERNS :: "string list" where
  "BLOCK_PATTERNS = [''cloudflare'', ''captcha'', ''access denied'', ''blocked'',
     ''unusual traffic'', ''rate limit'', ''banned'', ''forbidden'']"

definition CHALLENGE_URL_PATTERNS :: "string list" where
  "CHALLENGE_URL_PATTERNS = [''/cdn-cgi/challenge'', ''/challenge'', ''captcha'', ''recaptcha'']"

definition MAX_RETRIES :: nat where
  "MAX_RETRIES = 3"

definition lower_char :: "char \<Rightarrow> char" where
  "lower_char c =
     (if 65 \<le> (of_char c :: nat) \<and> (of_char c :: nat) \<le> 90
      then char_of ((of_char c :: nat) + 32) else c)"

fun match_here :: "string \<Rightarrow> string \<Rightarrow> bool" where
  "match_here [] t = True"
| "match_here (p # ps) [] = False"
| "match_here (p # ps) (c # cs) = (lower_char p = lower_char c \<and> match_here ps cs)"

fun pattern_search :: "string \<Rightarrow> string \<Rightarrow> bool" where
  "pattern_search pat [] = match_here pat []"
| "pattern_search pat (c # cs) = (match_here pat (c # cs) \<or> pattern_search pat cs)"

fun any_pattern :: "string list \<Rightarrow> string \<Rightarrow> bool" where
  "any_pattern [] t = False"
| "any_pattern (pat # pats) t = (if pattern_search pat t then True else any_pattern pats t)"

definition is_blocked :: "int \<Rightarrow> string \<Rightarrow> string option \<Rightarrow> bool" where
  "is_blocked status_code body redirect_url =
     (if status_code \<in> BLOCK_STATUS_CODES then True
      else if any_pattern BLOCK_PATTERNS (take 5000 body) then True
      else (case redirect_url of
              None \<Rightarrow> False
            | Some u \<Rightarrow> if u = [] then False else any_pattern CHALLENGE_URL_PATTERNS u))"

text \<open>
  The statement of the specification: a case-insensitive match is an occurrence of the
  pattern as a factor of the text once both are lowered.
\<close>

definition matches_ci :: "string \<Rightarrow> string \<Rightarrow> bool" where
  "matches_ci pat t = (\<exists>pre post. map lower_char t = pre @ map lower_char pat @ post)"

definition spec_is_blocked :: "int \<Rightarrow> string \<Rightarrow> string option \<Rightarrow> bool" where
  "spec_is_blocked status body redirect =
     (status \<in> {403, 407, 429, 503}
      \<or> (\<exists>pat \<in> {''cloudflare'', ''captcha'', ''access denied'', ''blocked'',
                  ''unusual traffic'', ''rate limit'', ''banned'', ''forbidden''}.
            matches_ci pat (take 5000 body))
      \<or> (\<exists>u. redirect = Some u \<and>
            (\<exists>pat \<in> {''/cdn-cgi/challenge'', ''/challenge'', ''captcha'', ''recaptcha''}.
               matches_ci pat u)))"

text \<open>
  One forwarding attempt meets two collaborators: the rotation engine, asked for the next
  proxy (\<open>None\<close> for any reply other than a non-empty 200 body), and the upstream reached
  through that proxy, which answers, times out or fails.  The store is taken to accept
  every write.  The UTF-8 decoder and the URL parser belong to the standard library and
  are parameters.
\<close>

record proxy_info =
  pi_ip :: string
  pi_port :: int
  pi_strategy :: "string option"

datatype upstream =
    Response int "(string \<times> string) list" string
  | Timeout
  | TransportError string

record attempt_env =
  next_proxy :: "proxy_info option"
  upstream_result :: upstream
  elapsed_ms :: real
  wall_clock :: real

record log_entry =
  le_ts :: real
  le_method :: string
  le_url :: string
  le_target_domain :: string
  le_proxy_ip :: "string \<times> int"
  le_status :: int
  le_latency_ms :: real
  le_blocked :: bool
  le_attempt :: nat
  le_strategy :: string
  le_error :: string
  le_response_headers :: "(string \<times> string) list"

record gateway_state =
  request_log :: "log_entry list"
  live_requests :: "log_entry list"
  mark_block_calls :: "(string \<times> int \<times> string) list"

datatype exit_point = NoHealthyProxies | BlockedLastAttempt | Success | RetriesExhausted

type_synonym http_result = "int \<times> (string \<times> string) list \<times> string"

definition log_request_to_redis :: "log_entry \<Rightarrow> gateway_state \<Rightarrow> gateway_state" where
  "log_request_to_redis entry st =
     (let st1 = st\<lparr>request_log := entry # request_log st\<rparr>;
          st2 = st1\<lparr>request_log := take 500 (request_log st1)\<rparr>
      in st2\<lparr>live_requests := live_requests st2 @ [entry]\<rparr>)"

definition mark_proxy_blocked ::
  "string \<Rightarrow> int \<Rightarrow> string \<Rightarrow> gateway_state \<Rightarrow> gateway_state" where
  "mark_proxy_blocked i p domain st =
     st\<lparr>mark_block_calls := mark_block_calls st @ [(i, p, domain)]\<rparr>"

text \<open>
  What one attempt leaves in \<^verbatim>\<open>status_code\<close>, \<^verbatim>\<open>resp_headers\<close>, \<^verbatim>\<open>resp_body\<close>,
  \<^verbatim>\<open>blocked\<close> and \<^verbatim>\<open>error_msg\<close> when the \<^verbatim>\<open>try\<close> statement is left.
\<close>

definition attempt_outcome ::
  "(string \<Rightarrow> string) \<Rightarrow> upstream \<Rightarrow> http_result \<times> bool \<times> string" where
  "attempt_outcome decode r =
     (case r of
        Response status_code resp_headers resp_body \<Rightarrow>
          (let redirect_url = map_of resp_headers ''location'';
               body_text = decode resp_body
           in ((status_code, resp_headers, resp_body),
               is_blocked status_code body_text redirect_url, []))
      | Timeout \<Rightarrow> ((502, [], []), True, ''timeout'')
      | TransportError msg \<Rightarrow> ((502, [], []), True, msg))"

definition make_log_entry ::
  "string \<Rightarrow> string \<Rightarrow> string \<Rightarrow> nat \<Rightarrow> attempt_env \<Rightarrow> proxy_info \<Rightarrow>
   http_result \<Rightarrow> bool \<Rightarrow> string \<Rightarrow> log_entry" where
  "make_log_entry method url domain attempt e info resp blocked error_msg =
     \<lparr>le_ts = wall_clock e, le_method = method, le_url = url,
      le_target_domain = domain, le_proxy_ip = (pi_ip info, pi_port info),
      le_status = fst resp, le_latency_ms = elapsed_ms e,
      le_blocked = blocked, le_attempt = attempt,
      le_strategy = (case pi_strategy info of None \<Rightarrow> ''unknown'' | Some n \<Rightarrow> n),
      le_error = error_msg,
      le_response_headers = take 20 (fst (snd resp))\<rparr>"

text \<open>
  The retry loop \<^verbatim>\<open>for attempt in range(1, MAX_RETRIES + 1)\<close>, over the attempt numbers
  still to run; the empty list is the code after the loop.  The result carries the
  \<^verbatim>\<open>return\<close> statement that produced it.
\<close>

fun attempt_loop ::
  "(string \<Rightarrow> string) \<Rightarrow> string \<Rightarrow> string \<Rightarrow> string \<Rightarrow> (nat \<Rightarrow> attempt_env) \<Rightarrow> nat list \<Rightarrow>
   gateway_state \<Rightarrow> (exit_point \<times> http_result) \<times> gateway_state" where
  \<open>attempt_loop decode method url domain env [] st =
     ((RetriesExhausted, (502, [], ''{"error": "all retries exhausted"}'')), st)\<close>
| \<open>attempt_loop decode method url domain env (attempt # rest) st =
     (case next_proxy (env attempt) of
        None \<Rightarrow>
          ((NoHealthyProxies, (502, [], ''{"error": "no healthy proxies available"}'')), st)
      | Some info \<Rightarrow>
          (let (resp, blocked, error_msg) =
                 attempt_outcome decode (upstream_result (env attempt));
               entry = make_log_entry method url domain attempt (env attempt) info resp
                         blocked error_msg;
               st1 = log_request_to_redis entry st
           in if blocked
              then (let st2 = mark_proxy_blocked (pi_ip info) (pi_port info) domain st1
                    in if attempt < MAX_RETRIES
                       then attempt_loop decode method url domain env rest st2
                       else ((BlockedLastAttempt, resp), st2))
              else ((Success, resp), st1)))\<close>

definition handle_http_request ::
  "(string \<Rightarrow> string) \<Rightarrow> (string \<Rightarrow> string) \<Rightarrow> string \<Rightarrow> string \<Rightarrow> (nat \<Rightarrow> attempt_env) \<Rightarrow>
   gateway_state \<Rightarrow> (exit_point \<times> http_result) \<times> gateway_state" where
  "handle_http_request decode extract_domain method url env st =
     attempt_loop decode method url (extract_domain url) env [1..<MAX_RETRIES + 1] st"

section \<open>Operation sequences, invariants and scenarios\<close>

definition one_proxy_pool :: pool where
  "one_proxy_pool = snd (add_proxy 0 ''1.1.1.1'' 8080 no_kwargs empty_pool)"

definition three_failures :: "real \<Rightarrow> real \<Rightarrow> real \<Rightarrow> string \<Rightarrow> int \<Rightarrow> pool \<Rightarrow> pool" where
  "three_failures n1 n2 n3 i p s =
     snd (record_failure n3 i p (snd (record_failure n2 i p (snd (record_failure n1 i p s)))))"

definition probe_target :: proxy where
  "probe_target = base_proxy 0 ''1.1.1.1'' 8080"

definition failed_twice_pool :: pool where
  "failed_twice_pool =
     snd (check_single_proxy 2 probe_target ProbeFail
       (snd (check_single_proxy 1 probe_target ProbeFail one_proxy_pool)))"

text \<open>
  Sequences of pool operations, each with the clock reading it sees, run from a given pool.
  An operation that raises leaves the pool as it found it.
\<close>

datatype pool_op =
    Add real string int kwargs
  | BulkAdd real "kwargs list"
  | RecordSuccess real string int real
  | RecordFailure real string int
  | MarkDead string int
  | Remove string int
  | FlushDead

fun pool_step :: "pool_op \<Rightarrow> pool \<Rightarrow> pool" where
  "pool_step (Add now i p kw) s = snd (add_proxy now i p kw s)"
| "pool_step (BulkAdd now ps) s = snd (bulk_add now ps s)"
| "pool_step (RecordSuccess now i p latency) s = snd (record_success now i p latency s)"
| "pool_step (RecordFailure now i p) s = snd (record_failure now i p s)"
| "pool_step (MarkDead i p) s = mark_dead i p s"
| "pool_step (Remove i p) s = remove_proxy i p s"
| "pool_step FlushDead s = snd (flush_dead s)"

fun run_ops :: "pool_op list \<Rightarrow> pool \<Rightarrow> pool" where
  "run_ops [] s = s"
| "run_ops (c # cs) s = run_ops cs (pool_step c s)"

text \<open>The invariants of the data model, as the specification lists them.\<close>

definition record_ok :: "proxy \<Rightarrow> bool" where
  "record_ok px =
     (success_count px + fail_count px = total_checks px
      \<and> 0 \<le> health_score px \<and> health_score px \<le> 100)"

definition pool_invariant :: "pool \<Rightarrow> bool" where
  "pool_invariant s =
     ((\<forall>a \<in> healthy s. a \<in> index s \<and> a \<notin> dead s)
      \<and> (\<forall>a \<in> dead s. a \<in> index s \<and> a \<notin> healthy s)
      \<and> (\<forall>a px. proxies s a = Some px \<longrightarrow> record_ok px))"

text \<open>
  The operations under which the invariants are kept: \<^verbatim>\<open>add\<close> does not set the three
  counters and gives a score only inside \<open>[0, 100]\<close>; \<^verbatim>\<open>mark_dead\<close> is given an address of
  the index.
\<close>

fun op_ok :: "pool_op \<Rightarrow> pool \<Rightarrow> bool" where
  "op_ok (Add now i p kw) s =
     (kw_fail_count kw = None \<and> kw_success_count kw = None \<and> kw_total_checks kw = None
      \<and> (case kw_health_score kw of None \<Rightarrow> True | Some h \<Rightarrow> 0 \<le> h \<and> h \<le> 100))"
| "op_ok (MarkDead i p) s = ((i, p) \<in> index s)"
| "op_ok c s = True"

fun ops_ok :: "pool_op list \<Rightarrow> pool \<Rightarrow> bool" where
  "ops_ok [] s = True"
| "ops_ok (c # cs) s = (op_ok c s \<and> ops_ok cs (pool_step c s))"

definition counts_nonneg :: "pool \<Rightarrow> bool" where
  "counts_nonneg s =
     (\<forall>a px. proxies s a = Some px \<longrightarrow> 0 \<le> success_count px \<and> 0 \<le> fail_count px)"

definition stored_indexed :: "pool \<Rightarrow> bool" where
  "stored_indexed s = (\<forall>a px. proxies s a = Some px \<longrightarrow> a \<in> index s)"

definition strong_invariant :: "pool \<Rightarrow> bool" where
  "strong_invariant s = (pool_invariant s \<and> counts_nonneg s \<and> stored_indexed s)"

definition sample_ops :: "pool_op list" where
  "sample_ops = [Add 0 ''1.1.1.1'' 8080 no_kwargs, RecordFailure 1 ''1.1.1.1'' 8080,
     MarkDead ''1.1.1.1'' 8080, RecordSuccess 2 ''1.1.1.1'' 8080 120,
     Add 3 ''2.2.2.2'' 3128 no_kwargs, MarkDead ''2.2.2.2'' 3128, FlushDead]"

text \<open>
  Scenario S2: two proxies added with scores 90 and 80, the cursor never written.  A run
  of round-robin selections takes one enumeration of the healthy set per selection.
\<close>

definition s2_first :: proxy where
  "s2_first = (base_proxy 0 ''1.1.1.1'' 8080)\<lparr>health_score := 90\<rparr>"

definition s2_second :: proxy where
  "s2_second = (base_proxy 0 ''2.2.2.2'' 3128)\<lparr>health_score := 80\<rparr>"

definition s2_pool :: pool where
  "s2_pool =
     snd (add_proxy 0 ''2.2.2.2'' 3128 (no_kwargs\<lparr>kw_health_score := Some 80\<rparr>)
       (snd (add_proxy 0 ''1.1.1.1'' 8080 (no_kwargs\<lparr>kw_health_score := Some 90\<rparr>) empty_pool)))"

fun round_robin_selects ::
  "addr list list \<Rightarrow> select_context \<Rightarrow> pool \<Rightarrow> (py_error + proxy option) list \<times> pool" where
  "round_robin_selects [] ctx s = ([], s)"
| "round_robin_selects (members # rest) ctx s =
     (let (r, s1) = round_robin_select members ctx s;
          (rs, s2) = round_robin_selects rest ctx s1
      in (r # rs, s2))"

definition sort_key_of :: "proxy \<Rightarrow> real \<times> real" where
  "sort_key_of x = (- health_score x, latency_ms x)"

text \<open>
  A pool whose on-block proxy was persisted and then removed: the healthy set is empty,
  the persisted proxy is not in the dead set.
\<close>

definition empty_context :: select_context where
  "empty_context =
     \<lparr>session_id = None, target_domain = None, session_ttl = None, rotation_interval = None\<rparr>"

definition stale_pool :: pool where
  "stale_pool =
     remove_proxy ''1.1.1.1'' 8080
       (snd (on_block_select [(''1.1.1.1'', 8080)] empty_context one_proxy_pool))"

text \<open>
  The log entry of an attempt that got a blocked response, and a gateway scenario in
  which every upstream answers 403.
\<close>

definition blocked_entry ::
  "string \<Rightarrow> string \<Rightarrow> string \<Rightarrow> (nat \<Rightarrow> attempt_env) \<Rightarrow> (nat \<Rightarrow> proxy_info) \<Rightarrow>
   (nat \<Rightarrow> http_result) \<Rightarrow> nat \<Rightarrow> log_entry" where
  "blocked_entry method url domain env info resp a =
     make_log_entry method url domain a (env a) (info a) (resp a) True []"

definition forbidden_info :: proxy_info where
  "forbidden_info = \<lparr>pi_ip = ''1.1.1.1'', pi_port = 8080, pi_strategy = None\<rparr>"

definition forbidden_env :: "nat \<Rightarrow> attempt_env" where
  "forbidden_env a =
     \<lparr>next_proxy = Some forbidden_info, upstream_result = Response 403 [] ''Forbidden'',
      elapsed_ms = 12, wall_clock = real a\<rparr>"

definition idle_gateway :: gateway_state where
  "idle_gateway = \<lparr>request_log = [], live_requests = [], mark_block_calls = []\<rparr>"

section \<open>Verified properties\<close>

subsection \<open>Helper facts\<close>

lemma one_proxy_pool_eq:
  "one_proxy_pool = empty_pool\<lparr>proxies := [(''1.1.1.1'', 8080) \<mapsto> base_proxy 0 ''1.1.1.1'' 8080],
      index := {(''1.1.1.1'', 8080)}, healthy := {(''1.1.1.1'', 8080)}\<rparr>"
  by (simp add: one_proxy_pool_def add_proxy_def no_kwargs_def empty_pool_def default_proxy_def
      dict_update_def base_proxy_def proxy_key_def Let_def)

subsection \<open>Scoring updates of the pool\<close>

text \<open>
  Claim C8.  \<^verbatim>\<open>record_success(ip, port, latency)\<close> on a proxy whose record is present adds
  one to \<open>success_count\<close> and to \<open>total_checks\<close>, sets \<open>consecutive_fails\<close> to 0, stores
  the latency and the time of the call, recomputes \<open>health_score\<close> as
  \<open>success_count / total_checks * 100\<close> (the code yields 0 where the new total is 0, the
  quotient having no value there), adds the address to the healthy set and takes it out of
  the dead set, the index staying as it is.  On an absent proxy the pool is unchanged.
\<close>

theorem record_success_effect:
  "(\<forall>px. proxies s (i, p) = Some px \<longrightarrow>
      (\<exists>px'. record_success now i p latency s = (Some px', snd (record_success now i p latency s))
         \<and> proxies (snd (record_success now i p latency s)) (i, p) = Some px'
         \<and> success_count px' = success_count px + 1
         \<and> total_checks px' = total_checks px + 1
         \<and> consecutive_fails px' = 0
         \<and> latency_ms px' = latency
         \<and> last_checked px' = now
         \<and> (total_checks px' \<noteq> 0 \<longrightarrow>
              health_score px' =
                real_of_int (success_count px') / real_of_int (total_checks px') * 100)
         \<and> (total_checks px' = 0 \<longrightarrow> health_score px' = 0)
         \<and> healthy (snd (record_success now i p latency s)) = insert (i, p) (healthy s)
         \<and> dead (snd (record_success now i p latency s)) = dead s - {(i, p)}
         \<and> index (snd (record_success now i p latency s)) = index s))
   \<and> (proxies s (i, p) = None \<longrightarrow> record_success now i p latency s = (None, s))"
  by (simp add: record_success_def proxy_key_def Let_def)

theorem record_success_effect_witness:
  "proxies one_proxy_pool (''1.1.1.1'', 8080) = Some (base_proxy 0 ''1.1.1.1'' 8080)
   \<and> (\<exists>px'. proxies (snd (record_success 5 ''1.1.1.1'' 8080 120 one_proxy_pool))
               (''1.1.1.1'', 8080) = Some px'
        \<and> success_count px' = 1 \<and> total_checks px' = 1 \<and> health_score px' = 100)
   \<and> proxies empty_pool (''1.1.1.1'', 8080) = None
   \<and> record_success 5 ''1.1.1.1'' 8080 120 empty_pool = (None, empty_pool)"
proof -
  have h1: "proxies one_proxy_pool (''1.1.1.1'', 8080) = Some (base_proxy 0 ''1.1.1.1'' 8080)"
    by (simp add: one_proxy_pool_eq)
  have h2: "proxies empty_pool (''1.1.1.1'', 8080) = None"
    by (simp add: empty_pool_def)
  from record_success_effect [of one_proxy_pool "''1.1.1.1''" 8080 5 120] h1
  obtain px' where
    "proxies (snd (record_success 5 ''1.1.1.1'' 8080 120 one_proxy_pool)) (''1.1.1.1'', 8080)
       = Some px'"
    "success_count px' = success_count (base_proxy 0 ''1.1.1.1'' 8080) + 1"
    "total_checks px' = total_checks (base_proxy 0 ''1.1.1.1'' 8080) + 1"
    "total_checks px' \<noteq> 0 \<longrightarrow>
       health_score px' = real_of_int (success_count px') / real_of_int (total_checks px') * 100"
    by blast
  then have "\<exists>px'. proxies (snd (record_success 5 ''1.1.1.1'' 8080 120 one_proxy_pool))
                 (''1.1.1.1'', 8080) = Some px'
        \<and> success_count px' = 1 \<and> total_checks px' = 1 \<and> health_score px' = 100"
    by (auto simp: base_proxy_def)
  moreover from record_success_effect [of empty_pool "''1.1.1.1''" 8080 5 120] h2
  have "record_success 5 ''1.1.1.1'' 8080 120 empty_pool = (None, empty_pool)" by blast
  ultimately show ?thesis using h1 h2 by blast
qed

text \<open>
  Claim C7.  Three calls of \<^verbatim>\<open>record_failure\<close> in a row on a present proxy that starts
  with \<open>consecutive_fails = 0\<close> add 3 to \<open>fail_count\<close> and to \<open>total_checks\<close> and leave
  the address in the dead set (and out of the healthy set); the record is still stored
  and the index is what it was.  On an absent proxy \<^verbatim>\<open>record_failure\<close> changes nothing.
\<close>

theorem record_failure_three_times:
  "(\<forall>px. proxies s (i, p) = Some px \<and> consecutive_fails px = 0 \<longrightarrow>
      (\<exists>px'. proxies (three_failures n1 n2 n3 i p s) (i, p) = Some px'
         \<and> fail_count px' = fail_count px + 3
         \<and> total_checks px' = total_checks px + 3
         \<and> consecutive_fails px' = 3
         \<and> (i, p) \<in> dead (three_failures n1 n2 n3 i p s)
         \<and> (i, p) \<notin> healthy (three_failures n1 n2 n3 i p s)
         \<and> index (three_failures n1 n2 n3 i p s) = index s))
   \<and> (proxies s (i, p) = None \<longrightarrow> record_failure now i p s = (None, s))"
  by (simp add: three_failures_def record_failure_def mark_dead_def proxy_key_def Let_def)

theorem record_failure_three_times_witness:
  "proxies one_proxy_pool (''1.1.1.1'', 8080) = Some (base_proxy 0 ''1.1.1.1'' 8080)
   \<and> consecutive_fails (base_proxy 0 ''1.1.1.1'' 8080) = 0
   \<and> (''1.1.1.1'', 8080) \<in> dead (three_failures 1 2 3 ''1.1.1.1'' 8080 one_proxy_pool)
   \<and> (''1.1.1.1'', 8080) \<in> index (three_failures 1 2 3 ''1.1.1.1'' 8080 one_proxy_pool)
   \<and> proxies empty_pool (''1.1.1.1'', 8080) = None
   \<and> record_failure 1 ''1.1.1.1'' 8080 empty_pool = (None, empty_pool)"
proof -
  have h1: "proxies one_proxy_pool (''1.1.1.1'', 8080) = Some (base_proxy 0 ''1.1.1.1'' 8080)"
    by (simp add: one_proxy_pool_eq)
  have h2: "consecutive_fails (base_proxy 0 ''1.1.1.1'' 8080) = 0"
    by (simp add: base_proxy_def)
  have h3: "proxies empty_pool (''1.1.1.1'', 8080) = None"
    by (simp add: empty_pool_def)
  have ix: "index one_proxy_pool = {(''1.1.1.1'', 8080)}"
    by (simp add: one_proxy_pool_eq)
  from record_failure_three_times [of one_proxy_pool "''1.1.1.1''" 8080 1 2 3] h1 h2
  have "(''1.1.1.1'', 8080) \<in> dead (three_failures 1 2 3 ''1.1.1.1'' 8080 one_proxy_pool)"
    and "index (three_failures 1 2 3 ''1.1.1.1'' 8080 one_proxy_pool) = index one_proxy_pool"
    by blast+
  moreover from record_failure_three_times [of empty_pool "''1.1.1.1''" 8080 _ _ _ 1] h3
  have "record_failure 1 ''1.1.1.1'' 8080 empty_pool = (None, empty_pool)" by blast
  ultimately show ?thesis using h1 h2 h3 ix by simp
qed

subsection \<open>Eviction by the health checker\<close>

lemma failed_twice_record:
  "proxies failed_twice_pool (''1.1.1.1'', 8080) =
     Some ((base_proxy 0 ''1.1.1.1'' 8080)\<lparr>fail_count := 2, total_checks := 2,
        consecutive_fails := 2, last_checked := 2\<rparr>)"
  by (simp add: failed_twice_pool_def probe_target_def check_single_proxy_def one_proxy_pool_eq
      adapter_get_proxy_def failure_update_def save_proxy_def adapter_mark_dead_def
      adapter_remove_proxy_def base_proxy_def empty_pool_def Let_def)

text \<open>
  Claim C3.  For a pool member (a stored record filed under its own address) whose probe
  fails, the health checker writes the record with \<open>fail_count\<close>, \<open>total_checks\<close> and
  \<open>consecutive_fails\<close> each raised by one and \<open>health_score\<close> recomputed as
  \<open>success_count / total_checks * 100\<close> (0 where the new total is 0).  When the new
  \<open>consecutive_fails\<close> is at least 3 it then removes the proxy: the record is deleted and
  the address leaves the index, the healthy set and the dead set.  When it is below 3 the
  updated record stays stored, the index is unchanged and the address is in the dead set.
\<close>

theorem health_check_failure_effect:
  "proxies s (ip px, port px) = Some existing \<and> ip existing = ip px \<and> port existing = port px \<longrightarrow>
     (\<exists>e. fail_count e = fail_count existing + 1
        \<and> total_checks e = total_checks existing + 1
        \<and> consecutive_fails e = consecutive_fails existing + 1
        \<and> success_count e = success_count existing
        \<and> (total_checks e \<noteq> 0 \<longrightarrow>
             health_score e = real_of_int (success_count e) / real_of_int (total_checks e) * 100)
        \<and> (total_checks e = 0 \<longrightarrow> health_score e = 0)
        \<and> fst (check_single_proxy now px ProbeFail s) = False
        \<and> (consecutive_fails e \<ge> 3 \<longrightarrow>
             snd (check_single_proxy now px ProbeFail s)
               = adapter_remove_proxy (ip px) (port px) (save_proxy e s)
             \<and> proxies (snd (check_single_proxy now px ProbeFail s)) (ip px, port px) = None
             \<and> (ip px, port px) \<notin> index (snd (check_single_proxy now px ProbeFail s))
             \<and> (ip px, port px) \<notin> healthy (snd (check_single_proxy now px ProbeFail s))
             \<and> (ip px, port px) \<notin> dead (snd (check_single_proxy now px ProbeFail s)))
        \<and> (consecutive_fails e < 3 \<longrightarrow>
             proxies (snd (check_single_proxy now px ProbeFail s)) (ip px, port px) = Some e
             \<and> index (snd (check_single_proxy now px ProbeFail s)) = index s
             \<and> (ip px, port px) \<in> dead (snd (check_single_proxy now px ProbeFail s))
             \<and> (ip px, port px) \<notin> healthy (snd (check_single_proxy now px ProbeFail s))))"
proof (intro impI)
  assume h: "proxies s (ip px, port px) = Some existing \<and> ip existing = ip px \<and> port existing = port px"
  let ?e = "failure_update now existing"
  have k: "ip ?e = ip px" "port ?e = port px"
    using h by (simp_all add: failure_update_def Let_def)
  have f: "fail_count ?e = fail_count existing + 1" "total_checks ?e = total_checks existing + 1"
    "consecutive_fails ?e = consecutive_fails existing + 1" "success_count ?e = success_count existing"
    "total_checks ?e \<noteq> 0 \<longrightarrow>
       health_score ?e = real_of_int (success_count ?e) / real_of_int (total_checks ?e) * 100"
    "total_checks ?e = 0 \<longrightarrow> health_score ?e = 0"
    by (simp_all add: failure_update_def Let_def)
  have r: "check_single_proxy now px ProbeFail s =
      (if consecutive_fails ?e \<ge> 3
       then (False, adapter_remove_proxy (ip px) (port px) (save_proxy ?e s))
       else (False, adapter_mark_dead (ip px) (port px) (save_proxy ?e s)))"
    using h by (simp add: check_single_proxy_def adapter_get_proxy_def Let_def)
  have rm: "consecutive_fails ?e \<ge> 3 \<longrightarrow>
             snd (check_single_proxy now px ProbeFail s)
               = adapter_remove_proxy (ip px) (port px) (save_proxy ?e s)
             \<and> proxies (snd (check_single_proxy now px ProbeFail s)) (ip px, port px) = None
             \<and> (ip px, port px) \<notin> index (snd (check_single_proxy now px ProbeFail s))
             \<and> (ip px, port px) \<notin> healthy (snd (check_single_proxy now px ProbeFail s))
             \<and> (ip px, port px) \<notin> dead (snd (check_single_proxy now px ProbeFail s))"
    by (simp add: r adapter_remove_proxy_def Let_def)
  have md: "consecutive_fails ?e < 3 \<longrightarrow>
             proxies (snd (check_single_proxy now px ProbeFail s)) (ip px, port px) = Some ?e
             \<and> index (snd (check_single_proxy now px ProbeFail s)) = index s
             \<and> (ip px, port px) \<in> dead (snd (check_single_proxy now px ProbeFail s))
             \<and> (ip px, port px) \<notin> healthy (snd (check_single_proxy now px ProbeFail s))"
    using k by (simp add: r adapter_mark_dead_def save_proxy_def Let_def)
  have fs: "fst (check_single_proxy now px ProbeFail s) = False"
    by (simp add: r)
  show "\<exists>e. fail_count e = fail_count existing + 1
        \<and> total_checks e = total_checks existing + 1
        \<and> consecutive_fails e = consecutive_fails existing + 1
        \<and> success_count e = success_count existing
        \<and> (total_checks e \<noteq> 0 \<longrightarrow>
             health_score e = real_of_int (success_count e) / real_of_int (total_checks e) * 100)
        \<and> (total_checks e = 0 \<longrightarrow> health_score e = 0)
        \<and> fst (check_single_proxy now px ProbeFail s) = False
        \<and> (consecutive_fails e \<ge> 3 \<longrightarrow>
             snd (check_single_proxy now px ProbeFail s)
               = adapter_remove_proxy (ip px) (port px) (save_proxy e s)
             \<and> proxies (snd (check_single_proxy now px ProbeFail s)) (ip px, port px) = None
             \<and> (ip px, port px) \<notin> index (snd (check_single_proxy now px ProbeFail s))
             \<and> (ip px, port px) \<notin> healthy (snd (check_single_proxy now px ProbeFail s))
             \<and> (ip px, port px) \<notin> dead (snd (check_single_proxy now px ProbeFail s)))
        \<and> (consecutive_fails e < 3 \<longrightarrow>
             proxies (snd (check_single_proxy now px ProbeFail s)) (ip px, port px) = Some e
             \<and> index (snd (check_single_proxy now px ProbeFail s)) = index s
             \<and> (ip px, port px) \<in> dead (snd (check_single_proxy now px ProbeFail s))
             \<and> (ip px, port px) \<notin> healthy (snd (check_single_proxy now px ProbeFail s)))"
    using f fs rm md by (intro exI [of _ ?e] conjI)
qed

theorem health_check_failure_effect_witness:
  "proxies failed_twice_pool (ip probe_target, port probe_target) =
       Some ((base_proxy 0 ''1.1.1.1'' 8080)\<lparr>fail_count := 2, total_checks := 2,
          consecutive_fails := 2, last_checked := 2\<rparr>)
   \<and> proxies (snd (check_single_proxy 3 probe_target ProbeFail failed_twice_pool))
         (''1.1.1.1'', 8080) = None
   \<and> (''1.1.1.1'', 8080) \<notin> index (snd (check_single_proxy 3 probe_target ProbeFail failed_twice_pool))
   \<and> proxies one_proxy_pool (ip probe_target, port probe_target) = Some probe_target
   \<and> proxies (snd (check_single_proxy 1 probe_target ProbeFail one_proxy_pool))
         (''1.1.1.1'', 8080) \<noteq> None
   \<and> (''1.1.1.1'', 8080) \<in> dead (snd (check_single_proxy 1 probe_target ProbeFail one_proxy_pool))"
proof -
  let ?r2 = "(base_proxy 0 ''1.1.1.1'' 8080)\<lparr>fail_count := 2, total_checks := 2,
          consecutive_fails := 2, last_checked := 2\<rparr>"
  have a: "ip probe_target = ''1.1.1.1''" "port probe_target = 8080"
    by (simp_all add: probe_target_def base_proxy_def)
  have h1: "proxies failed_twice_pool (ip probe_target, port probe_target) = Some ?r2
      \<and> ip ?r2 = ip probe_target \<and> port ?r2 = port probe_target"
    by (simp add: a failed_twice_record) (simp add: base_proxy_def)
  have h2: "proxies one_proxy_pool (ip probe_target, port probe_target) = Some probe_target
      \<and> ip probe_target = ip probe_target \<and> port probe_target = port probe_target"
    by (simp add: a one_proxy_pool_eq) (simp add: probe_target_def)
  note t1 = health_check_failure_effect [of failed_twice_pool probe_target ?r2 3, THEN mp, OF h1]
  from t1 have c1: "proxies (snd (check_single_proxy 3 probe_target ProbeFail failed_twice_pool))
          (''1.1.1.1'', 8080) = None
       \<and> (''1.1.1.1'', 8080)
            \<notin> index (snd (check_single_proxy 3 probe_target ProbeFail failed_twice_pool))"
    by (auto simp: a)
  note t2 = health_check_failure_effect [of one_proxy_pool probe_target probe_target 1, THEN mp, OF h2]
  have cf0: "consecutive_fails probe_target = 0"
    by (simp add: probe_target_def base_proxy_def)
  from t2 have c2: "proxies (snd (check_single_proxy 1 probe_target ProbeFail one_proxy_pool))
         (''1.1.1.1'', 8080) \<noteq> None
   \<and> (''1.1.1.1'', 8080) \<in> dead (snd (check_single_proxy 1 probe_target ProbeFail one_proxy_pool))"
    by (auto simp: a cf0)
  show ?thesis using h1 h2 c1 c2 by blast
qed

subsection \<open>Invariants of the pool\<close>

lemma score_bounds:
  "0 \<le> (a::int) \<Longrightarrow> a \<le> t \<Longrightarrow> 0 < t \<Longrightarrow>
     0 \<le> real_of_int a / real_of_int t * 100 \<and> real_of_int a / real_of_int t * 100 \<le> 100"
  by (simp add: divide_le_eq)

lemma bulk_add_loop_raises:
  "bulk_add_loop now (p # ps) pipe count = Inl KeyError
   \<or> bulk_add_loop now (p # ps) pipe count = Inl TypeError"
  by (simp add: default_proxy_def split: option.splits)

lemma bulk_add_state: "snd (bulk_add now ps s) = s"
proof (cases ps)
  case Nil
  then show ?thesis by (simp add: bulk_add_def)
next
  case (Cons p qs)
  with bulk_add_loop_raises [of now p qs "[]" 0] show ?thesis
    by (auto simp: bulk_add_def)
qed

lemma strong_empty: "strong_invariant empty_pool"
  by (simp add: strong_invariant_def pool_invariant_def counts_nonneg_def stored_indexed_def empty_pool_def)

lemma strong_mark_dead:
  "strong_invariant s \<Longrightarrow> (i, p) \<in> index s \<Longrightarrow> strong_invariant (mark_dead i p s)"
  by (auto simp: strong_invariant_def pool_invariant_def counts_nonneg_def stored_indexed_def mark_dead_def Let_def)

lemma strong_remove: "strong_invariant s \<Longrightarrow> strong_invariant (remove_proxy i p s)"
  by (auto simp: strong_invariant_def pool_invariant_def counts_nonneg_def stored_indexed_def remove_proxy_def
      proxy_key_def Let_def split: if_splits)

lemma strong_flush: "strong_invariant s \<Longrightarrow> strong_invariant (snd (flush_dead s))"
  by (auto simp: strong_invariant_def pool_invariant_def counts_nonneg_def stored_indexed_def flush_dead_def
      Let_def split: if_splits)

lemma strong_bulk_add: "strong_invariant s \<Longrightarrow> strong_invariant (snd (bulk_add now ps s))"
  by (simp add: bulk_add_state)

lemma dict_update_counts:
  "kw_fail_count kw = None \<Longrightarrow> kw_success_count kw = None \<Longrightarrow> kw_total_checks kw = None \<Longrightarrow>
   fail_count (dict_update b kw) = fail_count b
   \<and> success_count (dict_update b kw) = success_count b
   \<and> total_checks (dict_update b kw) = total_checks b"
  by (simp add: dict_update_def)

lemma dict_update_score:
  "health_score (dict_update b kw) =
     (case kw_health_score kw of None \<Rightarrow> health_score b | Some h \<Rightarrow> h)"
  by (simp add: dict_update_def)

lemma add_proxy_state:
  "kw_ip kw = None \<Longrightarrow> kw_port kw = None \<Longrightarrow>
   snd (add_proxy now i p kw s) =
     (let px = dict_update (case proxies s (i, p) of Some e \<Rightarrow> e | None \<Rightarrow> base_proxy now i p) kw
      in s\<lparr>proxies := (proxies s)((i, p) \<mapsto> px),
           index := insert (i, p) (index s),
           dead := dead s - {(i, p)},
           healthy := (if health_score px \<ge> 0 then insert (i, p) (healthy s) else healthy s)\<rparr>)"
  by (simp add: add_proxy_def default_proxy_def proxy_key_def Let_def split: option.splits)

lemma add_proxy_raise: "kw_ip kw \<noteq> None \<or> kw_port kw \<noteq> None \<Longrightarrow> snd (add_proxy now i p kw s) = s"
  by (auto simp: add_proxy_def)

lemma record_ok_added:
  assumes "record_ok b" "0 \<le> success_count b" "0 \<le> fail_count b"
    "kw_fail_count kw = None" "kw_success_count kw = None" "kw_total_checks kw = None"
    "case kw_health_score kw of None \<Rightarrow> True | Some h \<Rightarrow> 0 \<le> h \<and> h \<le> 100"
  shows "record_ok (dict_update b kw) \<and> 0 \<le> success_count (dict_update b kw)
     \<and> 0 \<le> fail_count (dict_update b kw)"
  using assms by (auto simp: record_ok_def dict_update_counts dict_update_score split: option.splits)

lemma base_proxy_ok:
  "record_ok (base_proxy now i p) \<and> 0 \<le> success_count (base_proxy now i p)
     \<and> 0 \<le> fail_count (base_proxy now i p)"
  by (simp add: record_ok_def base_proxy_def)

lemma strong_add:
  assumes inv: "strong_invariant s" and ok: "op_ok (Add now i p kw) s"
  shows "strong_invariant (snd (add_proxy now i p kw s))"
proof (cases "kw_ip kw = None \<and> kw_port kw = None")
  case False
  then show ?thesis using inv by (simp add: add_proxy_raise)
next
  case True
  let ?b = "case proxies s (i, p) of Some e \<Rightarrow> e | None \<Rightarrow> base_proxy now i p"
  have b: "record_ok ?b \<and> 0 \<le> success_count ?b \<and> 0 \<le> fail_count ?b"
    using inv base_proxy_ok [of now i p]
    by (auto simp: strong_invariant_def pool_invariant_def counts_nonneg_def split: option.splits)
  have px: "record_ok (dict_update ?b kw) \<and> 0 \<le> success_count (dict_update ?b kw)
     \<and> 0 \<le> fail_count (dict_update ?b kw)"
    using b ok by (intro record_ok_added) simp_all
  show ?thesis
    using inv px True
    by (auto simp: add_proxy_state strong_invariant_def pool_invariant_def counts_nonneg_def
        stored_indexed_def Let_def split: if_splits)
qed

lemma record_success_state:
  "proxies s (i, p) = Some px0 \<Longrightarrow>
   snd (record_success now i p latency s) =
     s\<lparr>proxies := (proxies s)((i, p) \<mapsto>
            px0\<lparr>success_count := success_count px0 + 1, total_checks := total_checks px0 + 1,
                consecutive_fails := 0, latency_ms := latency, last_checked := now,
                health_score :=
                  (if total_checks px0 + 1 \<noteq> 0
                   then real_of_int (success_count px0 + 1) / real_of_int (total_checks px0 + 1) * 100
                   else 0)\<rparr>),
         healthy := insert (i, p) (healthy s),
         dead := dead s - {(i, p)}\<rparr>"
  by (simp add: record_success_def proxy_key_def Let_def)

lemma record_failure_state:
  "proxies s (i, p) = Some px0 \<Longrightarrow>
   snd (record_failure now i p s) =
     (let px = px0\<lparr>fail_count := fail_count px0 + 1, total_checks := total_checks px0 + 1,
                consecutive_fails := consecutive_fails px0 + 1, last_checked := now,
                health_score :=
                  (if total_checks px0 + 1 \<noteq> 0
                   then real_of_int (success_count px0) / real_of_int (total_checks px0 + 1) * 100
                   else 0)\<rparr>;
          s1 = s\<lparr>proxies := (proxies s)((i, p) \<mapsto> px)\<rparr>
      in if consecutive_fails px0 + 1 \<ge> 3 then mark_dead i p s1 else s1)"
  by (simp add: record_failure_def proxy_key_def Let_def)

lemma success_record_ok:
  assumes "record_ok px0" "0 \<le> success_count px0" "0 \<le> fail_count px0"
  shows "record_ok (px0\<lparr>success_count := success_count px0 + 1,
            total_checks := total_checks px0 + 1,
            consecutive_fails := 0, latency_ms := latency, last_checked := now,
            health_score :=
              (if total_checks px0 + 1 \<noteq> 0
               then real_of_int (success_count px0 + 1) / real_of_int (total_checks px0 + 1) * 100
               else 0)\<rparr>)"
proof -
  have t: "total_checks px0 = success_count px0 + fail_count px0"
    using assms(1) by (simp add: record_ok_def)
  have "0 \<le> success_count px0 + 1" "success_count px0 + 1 \<le> total_checks px0 + 1"
    "0 < total_checks px0 + 1"
    using assms(2,3) t by simp_all
  from score_bounds [OF this] show ?thesis
    using t by (simp add: record_ok_def)
qed

lemma failure_record_ok:
  assumes "record_ok px0" "0 \<le> success_count px0" "0 \<le> fail_count px0"
  shows "record_ok (px0\<lparr>fail_count := fail_count px0 + 1, total_checks := total_checks px0 + 1,
            consecutive_fails := consecutive_fails px0 + 1, last_checked := now,
            health_score :=
              (if total_checks px0 + 1 \<noteq> 0
               then real_of_int (success_count px0) / real_of_int (total_checks px0 + 1) * 100
               else 0)\<rparr>)"
proof -
  have t: "total_checks px0 = success_count px0 + fail_count px0"
    using assms(1) by (simp add: record_ok_def)
  have "0 \<le> success_count px0" "success_count px0 \<le> total_checks px0 + 1"
    "0 < total_checks px0 + 1"
    using assms(2,3) t by simp_all
  from score_bounds [OF this] show ?thesis
    using t by (simp add: record_ok_def)
qed

lemma strong_record_success:
  assumes inv: "strong_invariant s"
  shows "strong_invariant (snd (record_success now i p latency s))"
proof (cases "proxies s (i, p)")
  case None
  then show ?thesis using inv by (simp add: record_success_def proxy_key_def)
next
  case (Some px0)
  have ok: "record_ok px0" "0 \<le> success_count px0" "0 \<le> fail_count px0" "(i, p) \<in> index s"
    using inv Some
    by (auto simp: strong_invariant_def pool_invariant_def counts_nonneg_def stored_indexed_def)
  note r = success_record_ok [OF ok(1,2,3), where latency = latency and now = now]
  show ?thesis
    using inv ok r
    by (auto simp: record_success_state [OF Some] strong_invariant_def pool_invariant_def
        counts_nonneg_def stored_indexed_def split: if_splits)
qed

lemma strong_stored:
  assumes inv: "strong_invariant s" and "(i, p) \<in> index s" and "record_ok px"
    and "0 \<le> success_count px" and "0 \<le> fail_count px"
  shows "strong_invariant (s\<lparr>proxies := (proxies s)((i, p) \<mapsto> px)\<rparr>)"
  using assms
  by (auto simp: strong_invariant_def pool_invariant_def counts_nonneg_def stored_indexed_def
      split: if_splits)

lemma strong_record_failure:
  assumes inv: "strong_invariant s"
  shows "strong_invariant (snd (record_failure now i p s))"
proof (cases "proxies s (i, p)")
  case None
  then show ?thesis using inv by (simp add: record_failure_def proxy_key_def)
next
  case (Some px0)
  have ok: "record_ok px0" "0 \<le> success_count px0" "0 \<le> fail_count px0" "(i, p) \<in> index s"
    using inv Some
    by (auto simp: strong_invariant_def pool_invariant_def counts_nonneg_def stored_indexed_def)
  let ?px = "px0\<lparr>fail_count := fail_count px0 + 1, total_checks := total_checks px0 + 1,
                consecutive_fails := consecutive_fails px0 + 1, last_checked := now,
                health_score :=
                  (if total_checks px0 + 1 \<noteq> 0
                   then real_of_int (success_count px0) / real_of_int (total_checks px0 + 1) * 100
                   else 0)\<rparr>"
  have r: "record_ok ?px" by (rule failure_record_ok [OF ok(1,2,3)])
  have s1: "strong_invariant (s\<lparr>proxies := (proxies s)((i, p) \<mapsto> ?px)\<rparr>)"
    using inv ok(4) r ok(2,3) by (intro strong_stored) simp_all
  have ix: "(i, p) \<in> index (s\<lparr>proxies := (proxies s)((i, p) \<mapsto> ?px)\<rparr>)"
    using ok(4) by simp
  show ?thesis
    using s1 strong_mark_dead [OF s1 ix]
    by (simp add: record_failure_state [OF Some] Let_def)
qed

lemma strong_step:
  "strong_invariant s \<Longrightarrow> op_ok c s \<Longrightarrow> strong_invariant (pool_step c s)"
proof (cases c)
  case (Add now i p kw)
  assume "strong_invariant s" "op_ok c s"
  then show ?thesis using Add strong_add by simp
next
  case (MarkDead i p)
  assume "strong_invariant s" "op_ok c s"
  then show ?thesis using MarkDead strong_mark_dead by simp
qed (simp_all add: strong_bulk_add strong_record_success strong_record_failure
       strong_remove strong_flush)

lemma strong_run:
  "strong_invariant s \<Longrightarrow> ops_ok cs s \<Longrightarrow> strong_invariant (run_ops cs s)"
  by (induction cs arbitrary: s) (simp_all add: strong_step)

lemma sample_ops_ok: "ops_ok sample_ops empty_pool"
  by (simp add: sample_ops_def add_proxy_state no_kwargs_def empty_pool_def
      record_failure_def record_success_def mark_dead_def proxy_key_def Let_def)

text \<open>
  Claim C4, as stated, fails: \<^verbatim>\<open>mark_dead\<close> on an address the pool does not know puts
  it in the dead set without touching the index, and \<^verbatim>\<open>add\<close> stores whatever counters
  its keyword arguments carry.
\<close>

theorem pool_invariant_counterexample:
  "\<not> pool_invariant (run_ops [MarkDead ''9.9.9.9'' 80] empty_pool)
   \<and> \<not> pool_invariant
        (run_ops [Add 0 ''1.1.1.1'' 8080 (no_kwargs\<lparr>kw_success_count := Some 5\<rparr>)] empty_pool)"
proof
  show "\<not> pool_invariant (run_ops [MarkDead ''9.9.9.9'' 80] empty_pool)"
    by (simp add: pool_invariant_def mark_dead_def empty_pool_def Let_def)
next
  have "proxies (run_ops [Add 0 ''1.1.1.1'' 8080 (no_kwargs\<lparr>kw_success_count := Some 5\<rparr>)] empty_pool)
          (''1.1.1.1'', 8080)
        = Some ((base_proxy 0 ''1.1.1.1'' 8080)\<lparr>success_count := 5\<rparr>)"
    by (simp add: add_proxy_state no_kwargs_def empty_pool_def dict_update_def base_proxy_def Let_def)
  moreover have "\<not> record_ok ((base_proxy 0 ''1.1.1.1'' 8080)\<lparr>success_count := 5\<rparr>)"
    by (simp add: record_ok_def base_proxy_def)
  ultimately show "\<not> pool_invariant
        (run_ops [Add 0 ''1.1.1.1'' 8080 (no_kwargs\<lparr>kw_success_count := Some 5\<rparr>)] empty_pool)"
    unfolding pool_invariant_def by blast
qed


text \<open>
  Claim C4, amended.  After any sequence of \<^verbatim>\<open>add\<close>, \<^verbatim>\<open>bulk_add\<close>, \<^verbatim>\<open>record_success\<close>,
  \<^verbatim>\<open>record_failure\<close>, \<^verbatim>\<open>mark_dead\<close>, \<^verbatim>\<open>remove\<close> and \<^verbatim>\<open>flush_dead\<close> from the empty
  pool in which \<^verbatim>\<open>add\<close> does not set \<open>fail_count\<close>, \<open>success_count\<close> or \<open>total_checks\<close>
  and sets \<open>health_score\<close> only to a value in \<open>[0, 100]\<close>, and \<^verbatim>\<open>mark_dead\<close> is applied
  only to addresses in the index: every healthy address is in the index and not dead,
  every dead address is in the index and not healthy, and every stored record has
  \<open>success_count + fail_count = total_checks\<close> and \<open>0 \<le> health_score \<le> 100\<close>.
\<close>

theorem pool_invariant_admissible:
  "ops_ok cs empty_pool \<Longrightarrow> pool_invariant (run_ops cs empty_pool)"
  using strong_run [OF strong_empty, of cs] by (simp add: strong_invariant_def)


theorem pool_invariant_admissible_witness:
  "ops_ok sample_ops empty_pool \<and> pool_invariant (run_ops sample_ops empty_pool)"
  using pool_invariant_admissible [of sample_ops] sample_ops_ok by simp


text \<open>
  Claim C1.  \<^verbatim>\<open>bulk_add\<close> does not behave as \<^verbatim>\<open>add\<close> on each element: the element
  dictionary, which must hold \<^verbatim>\<open>ip\<close> and \<^verbatim>\<open>port\<close>, is also spread into the keyword
  arguments of \<^verbatim>\<open>_default_proxy(ip, port, **p)\<close>, so the call raises before the pipeline
  runs and nothing is written, where \<^verbatim>\<open>add\<close> on the same proxy stores the record and puts
  the address in the index and the healthy set.
\<close>

theorem bulk_add_raises_where_add_inserts:
  "bulk_add 0 [no_kwargs\<lparr>kw_ip := Some ''1.1.1.1'', kw_port := Some 8080\<rparr>] empty_pool
     = (Inl TypeError, empty_pool)
   \<and> index (snd (add_proxy 0 ''1.1.1.1'' 8080 no_kwargs empty_pool)) = {(''1.1.1.1'', 8080)}
   \<and> healthy (snd (add_proxy 0 ''1.1.1.1'' 8080 no_kwargs empty_pool)) = {(''1.1.1.1'', 8080)}
   \<and> index (snd (bulk_add 0 [no_kwargs\<lparr>kw_ip := Some ''1.1.1.1'', kw_port := Some 8080\<rparr>]
               empty_pool)) = {}"
  by (simp add: bulk_add_def default_proxy_def no_kwargs_def add_proxy_state)
     (simp add: empty_pool_def dict_update_def base_proxy_def Let_def)

theorem bulk_add_raises_where_add_inserts_witness:
  "fst (bulk_add 0 [no_kwargs\<lparr>kw_ip := Some ''1.1.1.1'', kw_port := Some 8080\<rparr>] empty_pool)
     = Inl TypeError
   \<and> (''1.1.1.1'', 8080) \<in> index (snd (add_proxy 0 ''1.1.1.1'' 8080 no_kwargs empty_pool))
   \<and> (''1.1.1.1'', 8080)
        \<notin> index (snd (bulk_add 0 [no_kwargs\<lparr>kw_ip := Some ''1.1.1.1'', kw_port := Some 8080\<rparr>]
                    empty_pool))"
  using bulk_add_raises_where_add_inserts by (simp add: empty_pool_def)

subsection \<open>Round-robin selection\<close>

lemma s2_pool_eq:
  "s2_pool = empty_pool\<lparr>proxies := [(''1.1.1.1'', 8080) \<mapsto> s2_first, (''2.2.2.2'', 3128) \<mapsto> s2_second],
      index := {(''1.1.1.1'', 8080), (''2.2.2.2'', 3128)},
      healthy := {(''1.1.1.1'', 8080), (''2.2.2.2'', 3128)}\<rparr>"
  by (auto simp: s2_pool_def add_proxy_state no_kwargs_def empty_pool_def dict_update_def
      base_proxy_def s2_first_def s2_second_def Let_def)

lemma two_enumerations:
  "distinct ms \<Longrightarrow> set ms = {a, b} \<Longrightarrow> a \<noteq> b \<Longrightarrow> ms = [a, b] \<or> ms = [b, a]"
proof -
  assume d: "distinct ms" and s: "set ms = {a, b}" and n: "a \<noteq> b"
  have "length ms = 2"
    using distinct_card [OF d] s n by simp
  then obtain x y where ms: "ms = [x, y]"
    by (cases ms; cases "tl ms") auto
  with s d n show ?thesis by (auto simp: doubleton_eq_iff)
qed

lemma healthy_list_s2:
  assumes "distinct ms" "set ms = healthy s2_pool" "proxies s = proxies s2_pool"
  shows "get_healthy_proxies ms 0 s = [s2_first, s2_second]"
proof -
  have "set ms = {(''1.1.1.1'', 8080), (''2.2.2.2'', 3128)}"
    using assms(2) by (simp add: s2_pool_eq)
  with assms(1) have "ms = [(''1.1.1.1'', 8080), (''2.2.2.2'', 3128)]
      \<or> ms = [(''2.2.2.2'', 3128), (''1.1.1.1'', 8080)]"
    by (intro two_enumerations) simp_all
  then show ?thesis
    by (auto simp: get_healthy_proxies_def assms(3) s2_pool_eq proxy_key_def List.map_filter_simps
        s2_first_def s2_second_def base_proxy_def)
qed

lemma healthy_list_sorted: "sorted (map sort_key_of (get_healthy_proxies members min_score s))"
proof -
  have k: "sort_key_of = (\<lambda>x. (- health_score x, latency_ms x))"
    by (rule ext) (simp add: sort_key_of_def)
  show ?thesis
    by (simp add: get_healthy_proxies_def Let_def k)
qed

lemma round_robin_step:
  assumes "get_healthy_proxies members 0 s \<noteq> []" "0 \<le> get_rr_index s"
  shows "round_robin_select members ctx s =
     (Inr (Some (get_healthy_proxies members 0 s !
                   nat (if get_rr_index s \<ge> int (length (get_healthy_proxies members 0 s))
                        then 0 else get_rr_index s))),
      set_rr_index ((if get_rr_index s \<ge> int (length (get_healthy_proxies members 0 s))
                     then 0 else get_rr_index s) + 1) s)"
  using assms by (auto simp: round_robin_select_def py_index_def Let_def)

lemma round_robin_s2:
  assumes "distinct ms" "set ms = healthy s2_pool" "proxies s = proxies s2_pool"
  shows "round_robin_select ms ctx s =
     (if get_rr_index s = 0 \<or> get_rr_index s \<ge> 2 then (Inr (Some s2_first), set_rr_index 1 s)
      else if get_rr_index s = 1 then (Inr (Some s2_second), set_rr_index 2 s)
      else round_robin_select ms ctx s)"
  by (auto simp: round_robin_select_def healthy_list_s2 [OF assms] py_index_def Let_def)

lemma round_robin_four_selects:
  assumes "\<forall>ms \<in> set [m1, m2, m3, m4]. distinct ms \<and> set ms = healthy s2_pool"
  shows "fst (round_robin_selects [m1, m2, m3, m4] ctx s2_pool) =
      [Inr (Some s2_first), Inr (Some s2_second), Inr (Some s2_first), Inr (Some s2_second)]"
proof -
  have m: "distinct m1" "set m1 = healthy s2_pool" "distinct m2" "set m2 = healthy s2_pool"
    "distinct m3" "set m3 = healthy s2_pool" "distinct m4" "set m4 = healthy s2_pool"
    using assms by simp_all
  have r0: "get_rr_index s2_pool = 0"
    by (simp add: get_rr_index_def s2_pool_eq empty_pool_def)
  have e1: "round_robin_select m1 ctx s2_pool = (Inr (Some s2_first), set_rr_index 1 s2_pool)"
    using round_robin_s2 [OF m(1,2), of s2_pool ctx] r0 by simp
  have e2: "round_robin_select m2 ctx (set_rr_index 1 s2_pool)
      = (Inr (Some s2_second), set_rr_index 2 s2_pool)"
    using round_robin_s2 [OF m(3,4), of "set_rr_index 1 s2_pool" ctx]
    by (simp add: set_rr_index_def get_rr_index_def)
  have e3: "round_robin_select m3 ctx (set_rr_index 2 s2_pool)
      = (Inr (Some s2_first), set_rr_index 1 s2_pool)"
    using round_robin_s2 [OF m(5,6), of "set_rr_index 2 s2_pool" ctx]
    by (simp add: set_rr_index_def get_rr_index_def)
  have e4: "round_robin_select m4 ctx (set_rr_index 1 s2_pool)
      = (Inr (Some s2_second), set_rr_index 2 s2_pool)"
    using round_robin_s2 [OF m(7,8), of "set_rr_index 1 s2_pool" ctx]
    by (simp add: set_rr_index_def get_rr_index_def)
  show ?thesis by (simp add: e1 e2 e3 e4)
qed

text \<open>
  Claim C9.  A round-robin selection on a non-empty healthy list, with the cursor \<open>i\<close> not
  negative, takes \<open>i\<close> to 0 when \<open>i \<ge> len(healthy)\<close>, returns \<open>healthy[i]\<close> and stores
  \<open>i + 1\<close>; the healthy list is sorted by \<open>(-health_score, latency_ms)\<close>.  On the pool
  of 1.1.1.1:8080 (score 90) and 2.2.2.2:3128 (score 80) with the cursor at 0, whatever
  order the store enumerates the healthy set in, four selections in a row return
  1.1.1.1, 2.2.2.2, 1.1.1.1, 2.2.2.2.
\<close>

theorem round_robin_cycle:
  "(get_healthy_proxies members 0 s \<noteq> [] \<and> 0 \<le> get_rr_index s \<longrightarrow>
      round_robin_select members ctx s =
        (Inr (Some (get_healthy_proxies members 0 s !
                      nat (if get_rr_index s \<ge> int (length (get_healthy_proxies members 0 s))
                           then 0 else get_rr_index s))),
         set_rr_index ((if get_rr_index s \<ge> int (length (get_healthy_proxies members 0 s))
                        then 0 else get_rr_index s) + 1) s))
   \<and> sorted (map sort_key_of (get_healthy_proxies members 0 s))
   \<and> ((\<forall>ms \<in> set [m1, m2, m3, m4]. distinct ms \<and> set ms = healthy s2_pool) \<longrightarrow>
        get_rr_index s2_pool = 0
        \<and> get_healthy_proxies m1 0 s2_pool = [s2_first, s2_second]
        \<and> fst (round_robin_selects [m1, m2, m3, m4] ctx s2_pool) =
            [Inr (Some s2_first), Inr (Some s2_second), Inr (Some s2_first), Inr (Some s2_second)]
        \<and> ip s2_first = ''1.1.1.1'' \<and> port s2_first = 8080 \<and> health_score s2_first = 90
        \<and> ip s2_second = ''2.2.2.2'' \<and> port s2_second = 3128 \<and> health_score s2_second = 80)"
proof (intro conjI impI)
  assume "get_healthy_proxies members 0 s \<noteq> [] \<and> 0 \<le> get_rr_index s"
  then show "round_robin_select members ctx s =
        (Inr (Some (get_healthy_proxies members 0 s !
                      nat (if get_rr_index s \<ge> int (length (get_healthy_proxies members 0 s))
                           then 0 else get_rr_index s))),
         set_rr_index ((if get_rr_index s \<ge> int (length (get_healthy_proxies members 0 s))
                        then 0 else get_rr_index s) + 1) s)"
    by (intro round_robin_step) simp_all
next
  show "sorted (map sort_key_of (get_healthy_proxies members 0 s))"
    by (rule healthy_list_sorted)
next
  assume a: "\<forall>ms \<in> set [m1, m2, m3, m4]. distinct ms \<and> set ms = healthy s2_pool"
  then show "fst (round_robin_selects [m1, m2, m3, m4] ctx s2_pool) =
            [Inr (Some s2_first), Inr (Some s2_second), Inr (Some s2_first), Inr (Some s2_second)]"
    by (rule round_robin_four_selects)
  from a show "get_healthy_proxies m1 0 s2_pool = [s2_first, s2_second]"
    by (intro healthy_list_s2) simp_all
qed (simp_all add: get_rr_index_def s2_pool_eq empty_pool_def s2_first_def s2_second_def
       base_proxy_def)

theorem round_robin_cycle_witness:
  "distinct [(''1.1.1.1'', 8080), (''2.2.2.2'', 3128 :: int)]
   \<and> set [(''1.1.1.1'', 8080), (''2.2.2.2'', 3128)] = healthy s2_pool
   \<and> distinct [(''2.2.2.2'', 3128), (''1.1.1.1'', 8080 :: int)]
   \<and> set [(''2.2.2.2'', 3128), (''1.1.1.1'', 8080)] = healthy s2_pool
   \<and> get_healthy_proxies [(''1.1.1.1'', 8080), (''2.2.2.2'', 3128)] 0 s2_pool \<noteq> []
   \<and> 0 \<le> get_rr_index s2_pool
   \<and> round_robin_select [(''1.1.1.1'', 8080), (''2.2.2.2'', 3128)]
        \<lparr>session_id = None, target_domain = None, session_ttl = None, rotation_interval = None\<rparr>
        s2_pool = (Inr (Some s2_first), set_rr_index 1 s2_pool)
   \<and> fst (round_robin_selects
        [[(''1.1.1.1'', 8080), (''2.2.2.2'', 3128)], [(''2.2.2.2'', 3128), (''1.1.1.1'', 8080)],
         [(''1.1.1.1'', 8080), (''2.2.2.2'', 3128)], [(''2.2.2.2'', 3128), (''1.1.1.1'', 8080)]]
        \<lparr>session_id = None, target_domain = None, session_ttl = None, rotation_interval = None\<rparr>
        s2_pool) =
      [Inr (Some s2_first), Inr (Some s2_second), Inr (Some s2_first), Inr (Some s2_second)]"
proof -
  let ?a = "[(''1.1.1.1'', 8080), (''2.2.2.2'', 3128)]"
  let ?b = "[(''2.2.2.2'', 3128), (''1.1.1.1'', 8080)]"
  let ?c = "\<lparr>session_id = None, target_domain = None, session_ttl = None, rotation_interval = None\<rparr>"
  have h: "\<forall>ms \<in> set [?a, ?b, ?a, ?b]. distinct ms \<and> set ms = healthy s2_pool"
    by (auto simp: s2_pool_eq)
  note t = round_robin_cycle [of ?a s2_pool ?c ?a ?b ?a ?b]
  from t h have l: "get_healthy_proxies ?a 0 s2_pool = [s2_first, s2_second]"
    and r0: "get_rr_index s2_pool = 0"
    and four: "fst (round_robin_selects [?a, ?b, ?a, ?b] ?c s2_pool) =
      [Inr (Some s2_first), Inr (Some s2_second), Inr (Some s2_first), Inr (Some s2_second)]"
    by blast+
  have g: "get_healthy_proxies ?a 0 s2_pool \<noteq> [] \<and> 0 \<le> get_rr_index s2_pool"
    by (simp add: l r0)
  from t g have "round_robin_select ?a ?c s2_pool = (Inr (Some s2_first), set_rr_index 1 s2_pool)"
    by (simp add: l r0)
  with h g four show ?thesis by simp
qed

subsection \<open>When a strategy returns nothing\<close>

lemma stale_pool_eq:
  "stale_pool = empty_pool\<lparr>on_block_current_proxy := Some (base_proxy 0 ''1.1.1.1'' 8080)\<rparr>"
  by (simp add: stale_pool_def on_block_select_def on_block_cached_def one_proxy_pool_eq
      get_healthy_proxies_def proxy_key_def List.map_filter_simps remove_proxy_def
      empty_pool_def base_proxy_def Let_def)

lemma per_request_none:
  "fst (per_request_select rnd members ctx s) = Inr None
     \<longleftrightarrow> get_healthy_proxies members 0 s = []"
  by (simp add: per_request_select_def Let_def)

lemma round_robin_none:
  "fst (round_robin_select members ctx s) = Inr None
     \<longleftrightarrow> get_healthy_proxies members 0 s = []"
  by (simp add: round_robin_select_def Let_def split: sum.splits)

lemma per_session_none:
  "fst (per_session_select now rnd members ctx s) = Inr None
     \<longleftrightarrow> session_cached now (session_id ctx) s = None \<and> get_healthy_proxies members 0 s = []"
  by (simp add: per_session_select_def Let_def split: option.splits)

lemma time_based_none:
  "fst (time_based_select now rnd members ctx s) = Inr None
     \<longleftrightarrow> time_based_cached now (case rotation_interval ctx of None \<Rightarrow> 30 | Some t \<Rightarrow> t) s = None
         \<and> get_healthy_proxies members 0 s = []"
  by (simp add: time_based_select_def Let_def split: option.splits)

lemma on_block_none:
  "fst (on_block_select members ctx s) = Inr None
     \<longleftrightarrow> on_block_cached s = None \<and> get_healthy_proxies members 0 s = []"
  by (simp add: on_block_select_def split: option.splits list.splits)

text \<open>
  Claim C2, as stated, fails in one direction: with the healthy list empty, the on-block
  strategy still returns its persisted proxy, because it consults only the dead set
  before returning it (per-session and time-based do the same with their pins).
\<close>

theorem select_none_counterexample:
  "healthy stale_pool = {}
   \<and> get_healthy_proxies [] 0 stale_pool = []
   \<and> fst (select OnBlock 0 0 [] empty_context stale_pool)
       = Inr (Some (base_proxy 0 ''1.1.1.1'' 8080))"
  by (simp add: stale_pool_eq on_block_select_def on_block_cached_def get_healthy_proxies_def
      empty_pool_def base_proxy_def)

text \<open>
  Claim C2, amended.  For every strategy and context, a selection that returns none
  finds the healthy list empty.  For per-request and round-robin the converse holds too.
  Per-session, time-based and on-block return none exactly when the healthy list is
  empty and there is no usable cached proxy: no live session pin for a non-empty session
  id, no persisted current proxy (for time-based, one whose rotation interval has not
  elapsed) that is outside the dead set.
\<close>

theorem select_none_only_when_empty:
  "(fst (select strat now rnd members ctx s) = Inr None \<longrightarrow> get_healthy_proxies members 0 s = [])
   \<and> (strat = PerRequest \<or> strat = RoundRobin \<longrightarrow>
        (fst (select strat now rnd members ctx s) = Inr None
           \<longleftrightarrow> get_healthy_proxies members 0 s = []))
   \<and> (fst (select PerSession now rnd members ctx s) = Inr None
        \<longleftrightarrow> session_cached now (session_id ctx) s = None
            \<and> get_healthy_proxies members 0 s = [])
   \<and> (fst (select TimeBased now rnd members ctx s) = Inr None
        \<longleftrightarrow> time_based_cached now (case rotation_interval ctx of None \<Rightarrow> 30 | Some t \<Rightarrow> t) s = None
            \<and> get_healthy_proxies members 0 s = [])
   \<and> (fst (select OnBlock now rnd members ctx s) = Inr None
        \<longleftrightarrow> on_block_cached s = None \<and> get_healthy_proxies members 0 s = [])"
  by (cases strat)
     (simp_all add: per_request_none round_robin_none per_session_none time_based_none
        on_block_none)

theorem select_none_only_when_empty_witness:
  "fst (select PerRequest 0 0 [] empty_context empty_pool) = Inr None
   \<and> get_healthy_proxies [] 0 empty_pool = []
   \<and> fst (select RoundRobin 0 0 [(''1.1.1.1'', 8080)] empty_context one_proxy_pool) \<noteq> Inr None
   \<and> on_block_cached stale_pool \<noteq> None
   \<and> fst (select OnBlock 0 0 [] empty_context stale_pool) \<noteq> Inr None"
proof -
  have n: "fst (select PerRequest 0 0 [] empty_context empty_pool) = Inr None"
    by (simp add: per_request_select_def get_healthy_proxies_def)
  note t1 = select_none_only_when_empty [of PerRequest 0 0 "[]" empty_context empty_pool]
  from t1 n have e: "get_healthy_proxies [] 0 empty_pool = []" by blast
  have l: "get_healthy_proxies [(''1.1.1.1'', 8080)] 0 one_proxy_pool \<noteq> []"
    by (simp add: get_healthy_proxies_def one_proxy_pool_eq proxy_key_def List.map_filter_simps
        base_proxy_def)
  note t2 = select_none_only_when_empty
    [of RoundRobin 0 0 "[(''1.1.1.1'', 8080)]" empty_context one_proxy_pool]
  from t2 l have r: "fst (select RoundRobin 0 0 [(''1.1.1.1'', 8080)] empty_context one_proxy_pool)
      \<noteq> Inr None" by blast
  have c: "on_block_cached stale_pool \<noteq> None"
    by (simp add: on_block_cached_def stale_pool_eq empty_pool_def base_proxy_def)
  note t3 = select_none_only_when_empty [of OnBlock 0 0 "[]" empty_context stale_pool]
  from t3 c have o: "fst (select OnBlock 0 0 [] empty_context stale_pool) \<noteq> Inr None" by blast
  show ?thesis using n e r c o by blast
qed

subsection \<open>Block detection\<close>

lemma match_here_iff:
  "match_here pat t \<longleftrightarrow> (\<exists>post. map lower_char t = map lower_char pat @ post)"
  by (induction pat t rule: match_here.induct) auto

lemma pattern_search_iff: "pattern_search pat t \<longleftrightarrow> matches_ci pat t"
proof (induction t)
  case Nil
  show ?case by (cases pat) (simp_all add: matches_ci_def)
next
  case (Cons c cs)
  have "matches_ci pat (c # cs) \<longleftrightarrow>
      (\<exists>post. map lower_char (c # cs) = map lower_char pat @ post) \<or> matches_ci pat cs"
    unfolding matches_ci_def
    by (auto simp: Cons_eq_append_conv) (metis append_Cons)+
  with Cons show ?case by (simp add: match_here_iff del: match_here.simps)
qed

lemma any_pattern_iff: "any_pattern pats t \<longleftrightarrow> (\<exists>pat \<in> set pats. matches_ci pat t)"
  by (induction pats) (simp_all add: pattern_search_iff)

lemma matches_ci_empty_text: "matches_ci pat [] \<longleftrightarrow> pat = []"
  by (simp add: matches_ci_def)

lemma example_blocked: "is_blocked 200 ''Please solve the captcha'' None"
  by code_simp

lemma example_not_blocked: "\<not> is_blocked 200 ''hello'' None"
  by code_simp

text \<open>
  Claim C5.  \<^verbatim>\<open>is_blocked(status, body, redirect_url)\<close> is true exactly when the status is
  one of 403, 407, 429, 503, or the first 5000 characters of the body hold, case
  insensitively, one of the eight block patterns, or a redirect URL is present and holds
  one of the four challenge patterns.  It is true for
  \<open>(200, "Please solve the captcha", None)\<close> and false for \<open>(200, "hello", None)\<close>.
\<close>

theorem is_blocked_characterisation:
  "is_blocked status body redirect = spec_is_blocked status body redirect
   \<and> is_blocked 200 ''Please solve the captcha'' None
   \<and> \<not> is_blocked 200 ''hello'' None"
proof (intro conjI)
  show "is_blocked status body redirect = spec_is_blocked status body redirect"
  proof (cases redirect)
    case None
    then show ?thesis
      by (auto simp: is_blocked_def spec_is_blocked_def BLOCK_STATUS_CODES_def
          BLOCK_PATTERNS_def any_pattern_iff)
  next
    case (Some u)
    then show ?thesis
      by (auto simp: is_blocked_def spec_is_blocked_def BLOCK_STATUS_CODES_def
          BLOCK_PATTERNS_def CHALLENGE_URL_PATTERNS_def any_pattern_iff matches_ci_empty_text)
  qed
  show "is_blocked 200 ''Please solve the captcha'' None"
    by (rule example_blocked)
  show "\<not> is_blocked 200 ''hello'' None"
    by (rule example_not_blocked)
qed

theorem is_blocked_characterisation_witness:
  "spec_is_blocked 200 ''Please solve the captcha'' None
   \<and> \<not> spec_is_blocked 200 ''hello'' None
   \<and> spec_is_blocked 302 [] (Some ''https://example.test/cdn-cgi/challenge-platform'')
   \<and> spec_is_blocked 429 ''hello'' None"
proof -
  have a: "is_blocked 302 [] (Some ''https://example.test/cdn-cgi/challenge-platform'')"
    by code_simp
  have b: "is_blocked 429 ''hello'' None"
    by code_simp
  from is_blocked_characterisation [of 200 "''Please solve the captcha''" None]
  have c: "spec_is_blocked 200 ''Please solve the captcha'' None" by blast
  from is_blocked_characterisation [of 200 "''hello''" None]
  have d: "\<not> spec_is_blocked 200 ''hello'' None" by blast
  from a is_blocked_characterisation
    [of 302 "[]" "Some ''https://example.test/cdn-cgi/challenge-platform''"]
  have e: "spec_is_blocked 302 [] (Some ''https://example.test/cdn-cgi/challenge-platform'')"
    by blast
  from b is_blocked_characterisation [of 429 "''hello''" None]
  have f: "spec_is_blocked 429 ''hello'' None" by blast
  show ?thesis using c d e f by simp
qed

subsection \<open>The retry loop of the gateway\<close>

lemma attempts_list: "[1..<MAX_RETRIES + 1] = [1, 2, 3]"
  by (simp add: MAX_RETRIES_def upt_rec)

lemma loop_returns_inside:
  "attempts \<noteq> [] \<Longrightarrow> \<not> last attempts < MAX_RETRIES \<Longrightarrow>
   fst (fst (attempt_loop decode method url domain env attempts st)) \<noteq> RetriesExhausted"
proof (induction attempts arbitrary: st)
  case Nil
  then show ?case by simp
next
  case (Cons a rest)
  show ?case
  proof (cases "rest = []")
    case True
    with Cons.prems show ?thesis
      by (simp add: Let_def split: option.splits prod.splits)
  next
    case False
    with Cons.prems have "\<not> last rest < MAX_RETRIES" by simp
    with Cons.IH False
    have "\<And>st'. fst (fst (attempt_loop decode method url domain env rest st')) \<noteq> RetriesExhausted"
      by blast
    then show ?thesis
      by (simp add: Let_def split: option.splits prod.splits)
  qed
qed

lemma blocked_attempt_step:
  assumes "next_proxy (env a) = Some i"
    and "upstream_result (env a) = Response sc hs bd"
    and "is_blocked sc (decode bd) (map_of hs ''location'')"
  shows "attempt_loop decode method url domain env (a # rest) st =
     (let entry = make_log_entry method url domain a (env a) i (sc, hs, bd) True [];
          st2 = mark_proxy_blocked (pi_ip i) (pi_port i) domain (log_request_to_redis entry st)
      in if a < MAX_RETRIES then attempt_loop decode method url domain env rest st2
         else ((BlockedLastAttempt, (sc, hs, bd)), st2))"
  using assms by (simp add: attempt_outcome_def Let_def)

lemma log_three:
  "request_log (log_request_to_redis e3 (mark_proxy_blocked i2 p2 d2 (log_request_to_redis e2
      (mark_proxy_blocked i1 p1 d1 (log_request_to_redis e1 st)))))
   = take 500 (e3 # e2 # e1 # request_log st)"
  by (simp add: log_request_to_redis_def mark_proxy_blocked_def Let_def)

text \<open>
  Claim C10.  Whatever the rotation engine and the upstreams answer,
  \<^verbatim>\<open>handle_http_request\<close> returns from inside the retry loop: through the 502 for no
  healthy proxy, through the return of a blocked last attempt, or through the success
  return.  The return after the loop, with body \<open>{"error": "all retries exhausted"}\<close>,
  is never taken.
\<close>

theorem retries_exhausted_unreachable:
  "fst (fst (handle_http_request decode extract_domain method url env st)) \<noteq> RetriesExhausted
   \<and> fst (fst (handle_http_request decode extract_domain method url env st))
        \<in> {NoHealthyProxies, BlockedLastAttempt, Success}"
proof -
  have "fst (fst (handle_http_request decode extract_domain method url env st))
      \<noteq> RetriesExhausted"
    unfolding handle_http_request_def attempts_list
    by (rule loop_returns_inside) (simp_all add: MAX_RETRIES_def)
  then show ?thesis
    by (cases "fst (fst (handle_http_request decode extract_domain method url env st))") simp_all
qed

theorem retries_exhausted_unreachable_witness:
  "fst (fst (handle_http_request (\<lambda>b. b) (\<lambda>u. ''example.test'') ''GET''
               ''http://example.test/'' forbidden_env idle_gateway))
     \<in> {NoHealthyProxies, BlockedLastAttempt, Success}"
  using retries_exhausted_unreachable
    [of "\<lambda>b. b" "\<lambda>u. ''example.test''" "''GET''" "''http://example.test/''" forbidden_env
        idle_gateway]
  by blast

text \<open>
  Claim C6.  When each of the three attempts gets a proxy and a response that is
  classified as blocked, the gateway notifies mark-block once per attempt, three times in
  all and in attempt order, publishes one log entry per attempt and pushes each on the
  request log (kept to its newest 500), and returns the status, headers and body of the
  third response unchanged.
\<close>

theorem all_attempts_blocked:
  "(\<forall>a \<in> {1, 2, 3}.
       next_proxy (env a) = Some (info a)
     \<and> upstream_result (env a) = Response (fst (resp a)) (fst (snd (resp a))) (snd (snd (resp a)))
     \<and> is_blocked (fst (resp a)) (decode (snd (snd (resp a))))
           (map_of (fst (snd (resp a))) ''location''))
   \<longrightarrow>
     fst (handle_http_request decode extract_domain method url env st)
       = (BlockedLastAttempt, resp 3)
   \<and> mark_block_calls (snd (handle_http_request decode extract_domain method url env st))
       = mark_block_calls st @
           [(pi_ip (info 1), pi_port (info 1), extract_domain url),
            (pi_ip (info 2), pi_port (info 2), extract_domain url),
            (pi_ip (info 3), pi_port (info 3), extract_domain url)]
   \<and> live_requests (snd (handle_http_request decode extract_domain method url env st))
       = live_requests st @
           map (blocked_entry method url (extract_domain url) env info resp) [1, 2, 3]
   \<and> request_log (snd (handle_http_request decode extract_domain method url env st))
       = take 500
           (map (blocked_entry method url (extract_domain url) env info resp) [3, 2, 1]
            @ request_log st)"
proof (intro impI)
  let ?d = "extract_domain url"
  let ?e = "blocked_entry method url ?d env info resp"
  assume h: "\<forall>a \<in> {1, 2, 3}.
       next_proxy (env a) = Some (info a)
     \<and> upstream_result (env a) = Response (fst (resp a)) (fst (snd (resp a))) (snd (snd (resp a)))
     \<and> is_blocked (fst (resp a)) (decode (snd (snd (resp a))))
           (map_of (fst (snd (resp a))) ''location'')"
  have step: "\<And>a rest st'. a \<in> {1, 2, 3} \<Longrightarrow>
      attempt_loop decode method url ?d env (a # rest) st' =
        (let st2 = mark_proxy_blocked (pi_ip (info a)) (pi_port (info a)) ?d
                     (log_request_to_redis (?e a) st')
         in if a < MAX_RETRIES then attempt_loop decode method url ?d env rest st2
            else ((BlockedLastAttempt, resp a), st2))"
  proof -
    fix a :: nat and rest st'
    assume "a \<in> {1, 2, 3}"
    with h have "next_proxy (env a) = Some (info a)"
      "upstream_result (env a) = Response (fst (resp a)) (fst (snd (resp a))) (snd (snd (resp a)))"
      "is_blocked (fst (resp a)) (decode (snd (snd (resp a)))) (map_of (fst (snd (resp a))) ''location'')"
      by blast+
    from blocked_attempt_step [where env = env and a = a and decode = decode, OF this]
    show "attempt_loop decode method url ?d env (a # rest) st' =
        (let st2 = mark_proxy_blocked (pi_ip (info a)) (pi_port (info a)) ?d
                     (log_request_to_redis (?e a) st')
         in if a < MAX_RETRIES then attempt_loop decode method url ?d env rest st2
            else ((BlockedLastAttempt, resp a), st2))"
      by (simp add: blocked_entry_def Let_def)
  qed
  let ?s1 = "mark_proxy_blocked (pi_ip (info 1)) (pi_port (info 1)) ?d
               (log_request_to_redis (?e 1) st)"
  let ?s2 = "mark_proxy_blocked (pi_ip (info 2)) (pi_port (info 2)) ?d
               (log_request_to_redis (?e 2) ?s1)"
  let ?s3 = "mark_proxy_blocked (pi_ip (info 3)) (pi_port (info 3)) ?d
               (log_request_to_redis (?e 3) ?s2)"
  have r: "handle_http_request decode extract_domain method url env st
      = ((BlockedLastAttempt, resp 3), ?s3)"
    unfolding handle_http_request_def attempts_list
    by (simp only: step [of 1] step [of 2] step [of 3] insertI1 insertI2 Let_def)
       (simp add: MAX_RETRIES_def)
  show "fst (handle_http_request decode extract_domain method url env st)
       = (BlockedLastAttempt, resp 3)
   \<and> mark_block_calls (snd (handle_http_request decode extract_domain method url env st))
       = mark_block_calls st @
           [(pi_ip (info 1), pi_port (info 1), extract_domain url),
            (pi_ip (info 2), pi_port (info 2), extract_domain url),
            (pi_ip (info 3), pi_port (info 3), extract_domain url)]
   \<and> live_requests (snd (handle_http_request decode extract_domain method url env st))
       = live_requests st @
           map (blocked_entry method url (extract_domain url) env info resp) [1, 2, 3]
   \<and> request_log (snd (handle_http_request decode extract_domain method url env st))
       = take 500
           (map (blocked_entry method url (extract_domain url) env info resp) [3, 2, 1]
            @ request_log st)"
    unfolding r
    by (simp add: log_three)
       (simp add: log_request_to_redis_def mark_proxy_blocked_def Let_def)
qed

theorem all_attempts_blocked_witness:
  "next_proxy (forbidden_env 1) = Some forbidden_info
   \<and> upstream_result (forbidden_env 3) = Response 403 [] ''Forbidden''
   \<and> is_blocked 403 ''Forbidden'' (map_of [] ''location'')
   \<and> fst (handle_http_request (\<lambda>b. b) (\<lambda>u. ''example.test'') ''GET''
            ''http://example.test/'' forbidden_env idle_gateway)
        = (BlockedLastAttempt, (403, [], ''Forbidden''))
   \<and> mark_block_calls (snd (handle_http_request (\<lambda>b. b) (\<lambda>u. ''example.test'') ''GET''
            ''http://example.test/'' forbidden_env idle_gateway))
        = [(''1.1.1.1'', 8080, ''example.test''), (''1.1.1.1'', 8080, ''example.test''),
           (''1.1.1.1'', 8080, ''example.test'')]
   \<and> length (request_log (snd (handle_http_request (\<lambda>b. b) (\<lambda>u. ''example.test'') ''GET''
            ''http://example.test/'' forbidden_env idle_gateway))) = 3"
proof -
  have b: "is_blocked 403 ''Forbidden'' (map_of [] ''location'')"
    by (simp add: is_blocked_def BLOCK_STATUS_CODES_def)
  have h: "\<forall>a \<in> {1, 2, 3}.
       next_proxy (forbidden_env a) = Some ((\<lambda>_. forbidden_info) a)
     \<and> upstream_result (forbidden_env a)
         = Response (fst ((\<lambda>_. (403, [], ''Forbidden'')) a))
             (fst (snd ((\<lambda>_. (403, [], ''Forbidden'')) a)))
             (snd (snd ((\<lambda>_. (403, [], ''Forbidden'')) a)))
     \<and> is_blocked (fst ((\<lambda>_. (403, [], ''Forbidden'')) a))
           ((\<lambda>b. b) (snd (snd ((\<lambda>_. (403, [], ''Forbidden'')) a))))
           (map_of (fst (snd ((\<lambda>_. (403, [], ''Forbidden'')) a))) ''location'')"
    using b by (simp add: forbidden_env_def)
  note t = all_attempts_blocked
    [of forbidden_env "\<lambda>_. forbidden_info" "\<lambda>_. (403, [], ''Forbidden'')" "\<lambda>b. b"
       "\<lambda>u. ''example.test''" "''GET''" "''http://example.test/''" idle_gateway,
     THEN mp, OF h]
  have e: "next_proxy (forbidden_env 1) = Some forbidden_info"
    "upstream_result (forbidden_env 3) = Response 403 [] ''Forbidden''"
    by (simp_all add: forbidden_env_def)
  from t have r1: "fst (handle_http_request (\<lambda>b. b) (\<lambda>u. ''example.test'') ''GET''
            ''http://example.test/'' forbidden_env idle_gateway)
        = (BlockedLastAttempt, (403, [], ''Forbidden''))"
    by simp
  from t have r2: "mark_block_calls (snd (handle_http_request (\<lambda>b. b) (\<lambda>u. ''example.test'') ''GET''
            ''http://example.test/'' forbidden_env idle_gateway))
        = [(''1.1.1.1'', 8080, ''example.test''), (''1.1.1.1'', 8080, ''example.test''),
           (''1.1.1.1'', 8080, ''example.test'')]"
    by (simp add: idle_gateway_def forbidden_info_def)
  from t have r3: "length (request_log (snd (handle_http_request (\<lambda>b. b) (\<lambda>u. ''example.test'') ''GET''
            ''http://example.test/'' forbidden_env idle_gateway))) = 3"
    by (simp add: idle_gateway_def)
  show ?thesis using b e r1 r2 r3 by simp
qed

end
